theory Spec2Isabelle
  imports Complex_Main
begin

section \<open>Aperture extraction (stark/extract.py)\<close>

text \<open>
  The module works on numpy arrays of double-precision floats. A float is modelled as a
  finite real, an infinity or \<open>NaN\<close>, and every arithmetic operation of the source
  rounds its exact result to the nearest double (ties to even), overflowing to an
  infinity, as IEEE 754 prescribes. The sign of a zero is not kept: nothing in the module
  reads it. An array is its shape together with a function from indices to values; only
  indices inside the shape are ever read.
\<close>

subsection \<open>Errors, doubles and arrays\<close>

datatype error = IndexError | ValueError | TypeError | OverflowError

datatype f64 = Fin real | PInf | NInf | NaN

record 'a ndarray2 =
  shape2_0 :: nat
  shape2_1 :: nat
  at2 :: "nat \<Rightarrow> nat \<Rightarrow> 'a"

record 'a ndarray3 =
  shape3_0 :: nat
  shape3_1 :: nat
  shape3_2 :: nat
  at3 :: "nat \<Rightarrow> nat \<Rightarrow> nat \<Rightarrow> 'a"

text \<open>One row of the pixel list: (distance from the trace, flux, variance, column).\<close>

type_synonym sample = "f64 \<times> f64 \<times> f64 \<times> f64"

definition s_off :: "sample \<Rightarrow> f64" where
  "s_off s = fst s"

definition s_flux :: "sample \<Rightarrow> f64" where
  "s_flux s = fst (snd s)"

definition s_var :: "sample \<Rightarrow> f64" where
  "s_var s = fst (snd (snd s))"

definition s_col :: "sample \<Rightarrow> f64" where
  "s_col s = snd (snd (snd s))"

definition zeros3 :: "nat \<Rightarrow> nat \<Rightarrow> nat \<Rightarrow> int ndarray3" where
  "zeros3 a b c = \<lparr>shape3_0 = a, shape3_1 = b, shape3_2 = c, at3 = (\<lambda>i j k. 0)\<rparr>"

definition set3 :: "'a ndarray3 \<Rightarrow> nat \<Rightarrow> nat \<Rightarrow> nat \<Rightarrow> 'a \<Rightarrow> 'a ndarray3" where
  "set3 arr i j k v =
     arr\<lparr>at3 := (\<lambda>a b c. if a = i \<and> b = j \<and> c = k then v else at3 arr a b c)\<rparr>"

subsection \<open>Rounding\<close>

text \<open>Python 3 \<open>round\<close> on a float: to the nearest integer, ties to the even one.\<close>

definition py_round :: "real \<Rightarrow> int" where
  "py_round x =
     (let f = \<lfloor>x\<rfloor>; d = x - of_int f
      in if d < 1 / 2 then f
         else if 1 / 2 < d then f + 1
         else if even f then f else f + 1)"

text \<open>
  The exponent \<open>e\<close> of the binade \<open>2^e \<le> |x| < 2^(e+1)\<close> that holds \<open>x\<close>, not below
  the least normal exponent \<open>-1022\<close>. The doubles of that binade are the multiples of
  \<open>2^(e-52)\<close>, and \<open>nearest_f64\<close> is the nearest one, ties to the even multiple.
\<close>

definition binade :: "real \<Rightarrow> int" where
  "binade x = Max (insert (- 1022) {e \<in> {- 1022..1023}. 2 powi e \<le> \<bar>x\<bar>})"

definition nearest_f64 :: "real \<Rightarrow> real" where
  "nearest_f64 x =
     (let ulp = 2 powi (binade x - 52) in real_of_int (py_round (x / ulp)) * ulp)"

text \<open>
  From \<open>2^1024 - 2^970\<close> on, halfway between the largest double and \<open>2^1024\<close>,
  rounding overflows.
\<close>

definition overflow_threshold :: real where
  "overflow_threshold = 2 ^ 1024 - 2 ^ 970"

definition to_f64 :: "real \<Rightarrow> f64" where
  "to_f64 x =
     (if overflow_threshold \<le> x then PInf
      else if x \<le> - overflow_threshold then NInf
      else Fin (nearest_f64 x))"

text \<open>An integer that enters float arithmetic is converted to the nearest double.\<close>

definition f64_of_int :: "int \<Rightarrow> f64" where
  "f64_of_int i = to_f64 (real_of_int i)"

definition f64_of_nat :: "nat \<Rightarrow> f64" where
  "f64_of_nat n = to_f64 (real n)"

subsection \<open>Double-precision arithmetic\<close>

fun fneg :: "f64 \<Rightarrow> f64" where
  "fneg (Fin x) = Fin (- x)"
| "fneg PInf = NInf"
| "fneg NInf = PInf"
| "fneg NaN = NaN"

fun fadd :: "f64 \<Rightarrow> f64 \<Rightarrow> f64" where
  "fadd (Fin x) (Fin y) = to_f64 (x + y)"
| "fadd NaN b = NaN"
| "fadd a NaN = NaN"
| "fadd PInf NInf = NaN"
| "fadd NInf PInf = NaN"
| "fadd PInf b = PInf"
| "fadd NInf b = NInf"
| "fadd a PInf = PInf"
| "fadd a NInf = NInf"

definition fsub :: "f64 \<Rightarrow> f64 \<Rightarrow> f64" where
  "fsub a b = fadd a (fneg b)"

fun fmul :: "f64 \<Rightarrow> f64 \<Rightarrow> f64" where
  "fmul (Fin x) (Fin y) = to_f64 (x * y)"
| "fmul NaN b = NaN"
| "fmul a NaN = NaN"
| "fmul (Fin x) b = (if x = 0 then NaN else if (0 < x) = (b = PInf) then PInf else NInf)"
| "fmul a (Fin y) = (if y = 0 then NaN else if (0 < y) = (a = PInf) then PInf else NInf)"
| "fmul a b = (if a = b then PInf else NInf)"

text \<open>
  Division by a zero is written for a positive zero; the module divides only by a count
  and by a norm that is at least \<open>min_norm\<close>, \<open>NaN\<close> or infinite.
\<close>

fun fdiv :: "f64 \<Rightarrow> f64 \<Rightarrow> f64" where
  "fdiv (Fin x) (Fin y) =
     (if y = 0 then (if x = 0 then NaN else if 0 < x then PInf else NInf)
      else to_f64 (x / y))"
| "fdiv NaN b = NaN"
| "fdiv a NaN = NaN"
| "fdiv (Fin x) b = Fin 0"
| "fdiv a (Fin y) = (if (0 \<le> y) = (a = PInf) then PInf else NInf)"
| "fdiv a b = NaN"

text \<open>Comparisons: every comparison with \<open>NaN\<close> is false.\<close>

fun flt :: "f64 \<Rightarrow> f64 \<Rightarrow> bool" where
  "flt (Fin x) (Fin y) = (x < y)"
| "flt NaN b = False"
| "flt a NaN = False"
| "flt PInf b = False"
| "flt a NInf = False"
| "flt a b = True"

fun fle :: "f64 \<Rightarrow> f64 \<Rightarrow> bool" where
  "fle (Fin x) (Fin y) = (x \<le> y)"
| "fle NaN b = False"
| "fle a NaN = False"
| "fle NInf b = True"
| "fle a PInf = True"
| "fle a b = False"

text \<open>\<open>np.maximum\<close>: \<open>NaN\<close> if either argument is.\<close>

definition np_maximum :: "f64 \<Rightarrow> f64 \<Rightarrow> f64" where
  "np_maximum a b = (if a = NaN \<or> b = NaN then NaN else if fle a b then b else a)"

text \<open>
  \<open>int(round(x))\<close> on a float: \<open>round\<close> raises ValueError on \<open>NaN\<close> and
  OverflowError on an infinity.
\<close>

fun int_round :: "f64 \<Rightarrow> error + int" where
  "int_round (Fin x) = Inr (py_round x)"
| "int_round NaN = Inl ValueError"
| "int_round PInf = Inl OverflowError"
| "int_round NInf = Inl OverflowError"

subsection \<open>Library results\<close>

text \<open>
  Two results come from libraries and are not fixed by IEEE 754: the order in which
  \<open>np.sum\<close> adds the elements of an array (pairwise in blocks, which decides the
  rounding and changes between numpy versions), and the last bit of \<open>x ** y\<close> on
  float scalars (the C library's \<open>pow\<close>). They are parameters of the model;
  everything the module computes itself is the arithmetic above.
\<close>

record numpy =
  add_reduce :: "f64 list \<Rightarrow> f64"
  float_power :: "f64 \<Rightarrow> f64 \<Rightarrow> f64"

text \<open>\<open>np.sum\<close> of an empty float array is \<open>0.0\<close>.\<close>

definition np_sum :: "numpy \<Rightarrow> f64 list \<Rightarrow> f64" where
  "np_sum np xs = (if xs = [] then Fin 0 else add_reduce np xs)"

text \<open>
  \<open>np.mean\<close> divides the sum by the number of elements; for an empty array that is
  \<open>0.0 / 0\<close>, \<open>nan\<close> (with a warning, not an exception).
\<close>

definition np_mean :: "numpy \<Rightarrow> f64 list \<Rightarrow> f64" where
  "np_mean np xs = fdiv (np_sum np xs) (f64_of_nat (length xs))"

subsection \<open>Slices and loops\<close>

text \<open>
  The bounds of a slice \<open>a[i:j]\<close> over an axis of length \<open>n\<close>: a negative bound
  counts from the end, and both are cut to \<open>0..n\<close>.
\<close>

definition slice_bound :: "nat \<Rightarrow> int \<Rightarrow> nat" where
  "slice_bound n i = (if i < 0 then nat (max 0 (i + int n)) else min n (nat i))"

definition slice_rows :: "nat \<Rightarrow> int \<Rightarrow> int \<Rightarrow> nat list" where
  "slice_rows n i0 i1 = [slice_bound n i0 ..< slice_bound n i1]"

text \<open>A \<open>for\<close> loop whose body may raise: the first error ends the run.\<close>

fun for_loop :: "'a list \<Rightarrow> ('a \<Rightarrow> 's \<Rightarrow> error + 's) \<Rightarrow> 's \<Rightarrow> error + 's" where
  "for_loop [] body s = Inr s"
| "for_loop (x # xs) body s =
     (case body x s of Inl e \<Rightarrow> Inl e | Inr s' \<Rightarrow> for_loop xs body s')"

subsection \<open>The aperture window\<close>

text \<open>
  Lines 49, 51-57 and 108, 110-116 of the source are the same computations; they are
  written once here. \<open>nrows\<close> is the length of the row axis of the frame. The
  difference and the sum are rounded to doubles before \<open>round\<close> sees them.
\<close>

definition out_of_range :: "nat \<Rightarrow> f64 \<Rightarrow> bool" where
  "out_of_range nrows p = (flt p (Fin 0) \<or> fle (f64_of_nat nrows) p)"

definition aperture_window :: "nat \<Rightarrow> f64 \<Rightarrow> f64 \<Rightarrow> error + int \<times> int" where
  "aperture_window nrows p ap_rad =
     (case int_round (fsub p ap_rad) of
        Inl e \<Rightarrow> Inl e
      | Inr i0 \<Rightarrow>
          (case int_round (fadd p ap_rad) of
             Inl e \<Rightarrow> Inl e
           | Inr i1 \<Rightarrow>
               (let i0 = (if i0 < 0 then 0 else i0);
                    i1 = (if i1 \<ge> int nrows then int nrows - 1 else i1)
                in Inr (i0, i1))))"

subsection \<open>aperture_extract\<close>

definition aperture_col ::
  "numpy \<Rightarrow> f64 ndarray2 \<Rightarrow> f64 ndarray2 \<Rightarrow> f64 list \<Rightarrow> f64 \<Rightarrow> bool \<Rightarrow> nat \<Rightarrow>
   f64 list \<times> f64 list \<Rightarrow> error + f64 list \<times> f64 list" where
  "aperture_col np frame variance ord_pos ap_rad uniform col st =
     (let nslitpix = fmul ap_rad (Fin 2); spec = fst st; var = snd st
      in if col \<ge> length ord_pos then Inl IndexError
         else if out_of_range (shape2_0 frame) (ord_pos ! col) then Inr st
         else
           (case aperture_window (shape2_0 frame) (ord_pos ! col) ap_rad of
              Inl e \<Rightarrow> Inl e
            | Inr (i0, i1) \<Rightarrow>
                (let fs = map (\<lambda>r. at2 frame r col) (slice_rows (shape2_0 frame) i0 i1)
                 in if col \<ge> shape2_1 variance then Inl IndexError
                    else
                      (let vs = map (\<lambda>r. at2 variance r col)
                                    (slice_rows (shape2_0 variance) i0 i1)
                       in if uniform
                          then Inr (spec[col := fmul (np_mean np fs) nslitpix],
                                    var[col := fmul (np_mean np vs) nslitpix])
                          else Inr (spec[col := np_sum np fs],
                                    var[col := np_sum np vs])))))"

definition aperture_extract ::
  "numpy \<Rightarrow> f64 ndarray2 \<Rightarrow> f64 ndarray2 \<Rightarrow> f64 list \<Rightarrow> f64 \<Rightarrow> bool \<Rightarrow>
   error + f64 list \<times> f64 list" where
  "aperture_extract np frame variance ord_pos ap_rad uniform =
     (let ncols = shape2_1 frame;
          spec = replicate ncols (Fin 0);
          var = replicate ncols (Fin 0)
      in for_loop [0..<ncols] (aperture_col np frame variance ord_pos ap_rad uniform)
           (spec, var))"

subsection \<open>flux_coo\<close>

record flux_state =
  col_array_pos :: "int ndarray3"
  pix_list :: "sample list list"
  col_pos :: int

text \<open>
  \<open>col_array[:, k] = vals\<close> for a column of \<open>npix\<close> rows: the value must have
  \<open>npix\<close> entries, or one entry (which numpy repeats); anything else is a ValueError.
\<close>

definition assign_column :: "int \<Rightarrow> f64 list \<Rightarrow> error + f64 list" where
  "assign_column npix vals =
     (if int (length vals) = npix then Inr vals
      else if length vals = 1 then Inr (replicate (nat npix) (hd vals))
      else Inl ValueError)"

text \<open>
  One pass of the inner loop, lines 106-125. \<open>np.zeros((npix, 4))\<close> raises ValueError
  for a negative \<open>npix\<close>. \<open>np.ones(npix) * col\<close> is \<open>col\<close> as a double in every
  row (the product with 1.0 is exact).
\<close>

definition flux_col ::
  "f64 ndarray3 \<Rightarrow> f64 ndarray3 \<Rightarrow> f64 ndarray2 \<Rightarrow> f64 \<Rightarrow> nat \<Rightarrow> nat \<Rightarrow>
   flux_state \<Rightarrow> error + flux_state" where
  "flux_col frame variance ord_pos ap_rad integration col st =
     (let cap = set3 (col_array_pos st) integration col 0 (col_pos st)
      in if integration \<ge> shape2_0 ord_pos \<or> col \<ge> shape2_1 ord_pos then Inl IndexError
         else if out_of_range (shape3_1 frame) (at2 ord_pos integration col)
         then Inr (st\<lparr>col_array_pos := cap\<rparr>)
         else
           (let p = at2 ord_pos integration col
            in case aperture_window (shape3_1 frame) p ap_rad of
                 Inl e \<Rightarrow> Inl e
               | Inr (i0, i1) \<Rightarrow>
           (let npix = i1 - i0
            in if npix < 0 then Inl ValueError
               else
                 (case assign_column npix
                         (map (\<lambda>i. fsub (f64_of_int i) p) [i0..i1 - 1]) of
                    Inl e \<Rightarrow> Inl e
                  | Inr c0 \<Rightarrow>
                 (case assign_column npix
                         (map (\<lambda>r. at3 frame integration r col)
                              (slice_rows (shape3_1 frame) i0 i1)) of
                    Inl e \<Rightarrow> Inl e
                  | Inr c1 \<Rightarrow>
                 if integration \<ge> shape3_0 variance \<or> col \<ge> shape3_2 variance
                 then Inl IndexError
                 else
                 (case assign_column npix
                         (map (\<lambda>r. at3 variance integration r col)
                              (slice_rows (shape3_1 variance) i0 i1)) of
                    Inl e \<Rightarrow> Inl e
                  | Inr c2 \<Rightarrow>
                      Inr \<lparr>col_array_pos = set3 cap integration col 1 npix,
                           pix_list = pix_list st
                             @ [zip c0 (zip c1 (zip c2
                                  (replicate (nat npix) (f64_of_nat col))))],
                           col_pos = col_pos st + npix\<rparr>))))))"

text \<open>
  Lines 128-134. \<open>np.sum\<close> of an empty Python list is the float \<open>0.0\<close>, which
  \<open>np.zeros\<close> refuses as a dimension (TypeError); of a non-empty list of ints it is
  an int. Each block \<open>p\<close> is then written at rows \<open>entry .. entry + N\<close>.
\<close>

definition assign_rows :: "'a list \<Rightarrow> nat \<Rightarrow> nat \<Rightarrow> 'a list \<Rightarrow> 'a list" where
  "assign_rows arr a b p = take a arr @ p @ drop b arr"

definition materialize :: "sample list list \<Rightarrow> error + sample list" where
  "materialize pl =
     (if pl = [] then Inl TypeError
      else
        (let num_entries = sum_list (map length pl);
             pix_array = replicate num_entries (Fin 0, Fin 0, Fin 0, Fin 0)
         in Inr (fst (fold (\<lambda>p (arr, entry).
                             (let N = length p
                              in (assign_rows arr entry (entry + N) p, entry + N)))
                        pl (pix_array, 0)))))"

definition flux_loops ::
  "f64 ndarray3 \<Rightarrow> f64 ndarray3 \<Rightarrow> f64 ndarray2 \<Rightarrow> f64 \<Rightarrow> error + flux_state" where
  "flux_loops frame variance ord_pos ap_rad =
     (let nints = shape3_0 frame;
          ncols = shape3_2 frame
      in for_loop [0..<nints]
           (\<lambda>integration.
              for_loop [0..<ncols] (flux_col frame variance ord_pos ap_rad integration))
           \<lparr>col_array_pos = zeros3 nints ncols 2, pix_list = [], col_pos = 0\<rparr>)"

definition flux_coo ::
  "f64 ndarray3 \<Rightarrow> f64 ndarray3 \<Rightarrow> f64 ndarray2 \<Rightarrow> f64 \<Rightarrow>
   error + sample list \<times> int ndarray3" where
  "flux_coo frame variance ord_pos ap_rad =
     (case flux_loops frame variance ord_pos ap_rad of
        Inl e \<Rightarrow> Inl e
      | Inr st \<Rightarrow>
          (case materialize (pix_list st) of
             Inl e \<Rightarrow> Inl e
           | Inr pix_array \<Rightarrow> Inr (pix_array, col_array_pos st)))"

subsection \<open>norm_flux_coo\<close>

text \<open>The float literal \<open>0.01\<close>: the double nearest to 1/100.\<close>

definition min_norm :: f64 where
  "min_norm = to_f64 (1 / 100)"

definition norm_col ::
  "numpy \<Rightarrow> sample list \<Rightarrow> int ndarray3 \<Rightarrow> f64 ndarray2 option \<Rightarrow> nat \<Rightarrow> nat \<Rightarrow>
   sample list \<Rightarrow> error + sample list" where
  "norm_col np pix_array cap spec integration col norm_array =
     (if shape3_2 cap < 2 then Inl IndexError
      else
        (let ind0 = at3 cap integration col 0;
             ind1 = ind0 + at3 cap integration col 1;
             idx = slice_rows (length pix_array) ind0 ind1
         in case (case spec of
                    None \<Rightarrow> Inr (np_sum np (map (\<lambda>k. s_flux (pix_array ! k)) idx))
                  | Some s \<Rightarrow>
                      if integration \<ge> shape2_0 s \<or> col \<ge> shape2_1 s then Inl IndexError
                      else Inr (at2 s integration col)) of
              Inl e \<Rightarrow> Inl e
            | Inr norm_sum0 \<Rightarrow>
                (let norm_sum = np_maximum norm_sum0 min_norm;
                     na1 = fold (\<lambda>k a. a[k := (s_off (a ! k),
                                                fdiv (s_flux (pix_array ! k)) norm_sum,
                                                s_var (a ! k), s_col (a ! k))])
                                idx norm_array;
                     na2 = fold (\<lambda>k a. a[k := (s_off (a ! k), s_flux (a ! k),
                                                fdiv (s_var (pix_array ! k))
                                                     (float_power np norm_sum (Fin 2)),
                                                s_col (a ! k))])
                                idx na1
                 in Inr na2)))"

definition norm_flux_coo ::
  "numpy \<Rightarrow> sample list \<Rightarrow> int ndarray3 \<Rightarrow> f64 ndarray2 option \<Rightarrow> error + sample list" where
  "norm_flux_coo np pix_array cap spec =
     (let norm_array = pix_array;
          ncols = shape3_1 cap;
          nints = shape3_0 cap
      in for_loop [0..<nints]
           (\<lambda>integration. for_loop [0..<ncols] (norm_col np pix_array cap spec integration))
           norm_array)"

subsection \<open>Notions used in the statements\<close>

text \<open>
  The positions of the pixel list that the index table assigns to a column: the slice
  \<open>ind0:ind1\<close> of lines 167-168, with \<open>ind1 = ind0 + count\<close>.
\<close>

definition run_idx :: "sample list \<Rightarrow> int ndarray3 \<Rightarrow> nat \<Rightarrow> nat \<Rightarrow> nat list" where
  "run_idx pix_array cap integration col =
     slice_rows (length pix_array) (at3 cap integration col 0)
       (at3 cap integration col 0 + at3 cap integration col 1)"

text \<open>
  The normalisation factor as the specification words it: the reference spectrum's entry
  when one is supplied, else the sum of the flux over the column's run; floored at
  \<open>min_norm\<close>.
\<close>

definition spec_norm ::
  "numpy \<Rightarrow> sample list \<Rightarrow> int ndarray3 \<Rightarrow> f64 ndarray2 option \<Rightarrow> nat \<Rightarrow> nat \<Rightarrow> f64" where
  "spec_norm np pix_array cap spec integration col =
     np_maximum
       (case spec of
          None \<Rightarrow> np_sum np (map (\<lambda>k. s_flux (pix_array ! k))
                                 (run_idx pix_array cap integration col))
        | Some s \<Rightarrow> at2 s integration col)
       min_norm"


text \<open>The real value of a finite double, and the exact sum of a list of them.\<close>

fun real_of :: "f64 \<Rightarrow> real" where
  "real_of (Fin x) = x"
| "real_of a = 0"

fun finite_f64 :: "f64 \<Rightarrow> bool" where
  "finite_f64 (Fin x) = True"
| "finite_f64 a = False"

subsection \<open>Example inputs\<close>

text \<open>
  A library for the examples: it adds from left to right and squares by one rounded
  multiplication. On the examples below every sum and every square is exact, so any
  correctly rounding library returns the same values.
\<close>

definition plain_numpy :: numpy where
  "plain_numpy = \<lparr>add_reduce = (\<lambda>xs. foldl fadd (Fin 0) xs),
                  float_power = (\<lambda>x y. if y = Fin 2 then fmul x x else NaN)\<rparr>"

definition ones2 :: "nat \<Rightarrow> nat \<Rightarrow> f64 ndarray2" where
  "ones2 nrows ncols = \<lparr>shape2_0 = nrows, shape2_1 = ncols, at2 = (\<lambda>r c. Fin 1)\<rparr>"

definition ones3 :: "nat \<Rightarrow> nat \<Rightarrow> nat \<Rightarrow> f64 ndarray3" where
  "ones3 nints nrows ncols =
     \<lparr>shape3_0 = nints, shape3_1 = nrows, shape3_2 = ncols, at3 = (\<lambda>i r c. Fin 1)\<rparr>"

definition const_trace :: "nat \<Rightarrow> nat \<Rightarrow> f64 \<Rightarrow> f64 ndarray2" where
  "const_trace nints ncols p = \<lparr>shape2_0 = nints, shape2_1 = ncols, at2 = (\<lambda>i c. p)\<rparr>"

text \<open>A frame of five rows and two columns whose pixel in row \<open>r\<close> is \<open>r * r\<close>.\<close>

definition squares2 :: "f64 ndarray2" where
  "squares2 = \<lparr>shape2_0 = 5, shape2_1 = 2, at2 = (\<lambda>r c. Fin (real (r * r)))\<rparr>"

text \<open>A trace over one integration and two columns: row 2 in column 0, off the frame in column 1.\<close>

definition demo_trace :: "f64 ndarray2" where
  "demo_trace =
     \<lparr>shape2_0 = 1, shape2_1 = 2, at2 = (\<lambda>i c. if c = 0 then Fin 2 else Fin (- 1))\<rparr>"

text \<open>A cube of ones: one integration, five rows, two columns.\<close>

definition demo_cube :: "f64 ndarray3" where
  "demo_cube = ones3 1 5 2"

text \<open>A cube of ones with ten rows and one column, and a trace at the double 9.9.\<close>

definition edge_cube :: "f64 ndarray3" where
  "edge_cube = ones3 1 10 1"

definition edge_trace :: "f64 ndarray2" where
  "edge_trace = const_trace 1 1 (to_f64 (99 / 10))"

text \<open>A cube of ones with three columns, and a trace that is off the frame in each.\<close>

definition off_cube :: "f64 ndarray3" where
  "off_cube = ones3 1 5 3"

definition off_trace :: "f64 ndarray2" where
  "off_trace = const_trace 1 3 (Fin (- 1))"

section \<open>Properties\<close>

subsection \<open>Rounding to doubles\<close>

lemma py_round_of_int [simp]: "py_round (of_int k) = k"
  by (simp add: py_round_def)

lemma py_round_nonneg: "0 \<le> x \<Longrightarrow> 0 \<le> py_round x"
  by (auto simp: py_round_def Let_def)

lemma py_round_nonpos: "x \<le> 0 \<Longrightarrow> py_round x \<le> 0"
  by (auto simp: py_round_def Let_def)

lemma py_round_err: "\<bar>real_of_int (py_round x) - x\<bar> \<le> 1 / 2"
  by (auto simp: py_round_def Let_def)

lemma py_round_zero [simp]: "py_round 0 = 0"
  by (simp add: py_round_def)

lemma py_round_less:
  assumes "x < real n - 1 / 2"
  shows "py_round x < int n"
proof -
  from py_round_err[of x] have "real_of_int (py_round x) \<le> x + 1 / 2" by linarith
  with assms have "real_of_int (py_round x) < real n" by linarith
  then show ?thesis by linarith
qed

lemma py_round_ge:
  assumes "- 1 / 2 \<le> x"
  shows "0 \<le> py_round x"
proof (cases "0 \<le> x")
  case True
  then show ?thesis by (rule py_round_nonneg)
next
  case False
  with assms have f: "\<lfloor>x\<rfloor> = - 1" by linarith
  with assms show ?thesis by (auto simp: py_round_def Let_def)
qed

lemma binade_set_finite [simp]:
  "finite {e::int. - 1022 \<le> e \<and> e \<le> 1023 \<and> P e}"
  by (rule finite_subset[of _ "{- 1022..1023}"]) auto

lemma binade_range: "- 1022 \<le> binade x" "binade x \<le> 1023"
proof -
  let ?S = "insert (- 1022) {e \<in> {- 1022..1023}. 2 powi e \<le> \<bar>x\<bar>}"
  have "Max ?S \<in> ?S" by (rule Max_in) simp_all
  then show "- 1022 \<le> binade x" "binade x \<le> 1023" by (auto simp: binade_def)
qed

lemma binade_eq:
  assumes "- 1022 \<le> e" "e \<le> 1023" "2 powi e \<le> \<bar>x\<bar>" "\<bar>x\<bar> < 2 powi (e + 1)"
  shows "binade x = e"
  unfolding binade_def
proof (rule Max_eqI)
  show "finite (insert (- 1022) {e \<in> {- 1022..1023}. 2 powi e \<le> \<bar>x\<bar>})" by simp
  show "e \<in> insert (- 1022) {e \<in> {- 1022..1023}. 2 powi e \<le> \<bar>x\<bar>}" using assms by simp
  fix y assume y: "y \<in> insert (- 1022) {e \<in> {- 1022..1023}. 2 powi e \<le> \<bar>x\<bar>}"
  show "y \<le> e"
  proof (rule ccontr)
    assume "\<not> y \<le> e"
    then have "e + 1 \<le> y" by simp
    then have "(2::real) powi (e + 1) \<le> 2 powi y" by (intro power_int_increasing) simp_all
    moreover from y \<open>\<not> y \<le> e\<close> assms(1) have "2 powi y \<le> \<bar>x\<bar>" by auto
    ultimately show False using assms(4) by linarith
  qed
qed

lemma binade_small:
  assumes "\<bar>x\<bar> < 2 powi (- 1022)"
  shows "binade x = - 1022"
  unfolding binade_def
proof (rule Max_eqI)
  show "finite (insert (- 1022) {e \<in> {- 1022..1023}. 2 powi e \<le> \<bar>x\<bar>})" by simp
  show "- 1022 \<in> insert (- 1022) {e \<in> {- 1022..1023}. 2 powi e \<le> \<bar>x\<bar>}" by simp
  fix y assume y: "y \<in> insert (- 1022) {e \<in> {- 1022..1023}. 2 powi e \<le> \<bar>x\<bar>}"
  show "y \<le> - 1022"
  proof (rule ccontr)
    assume n: "\<not> y \<le> - 1022"
    then have "(2::real) powi (- 1022) \<le> 2 powi y" by (intro power_int_increasing) simp_all
    moreover from y n have "2 powi y \<le> \<bar>x\<bar>" by auto
    ultimately show False using assms by linarith
  qed
qed

lemma binade_lower:
  assumes "2 powi (- 1022) \<le> \<bar>x\<bar>"
  shows "2 powi binade x \<le> \<bar>x\<bar>"
proof -
  let ?S = "insert (- 1022) {e \<in> {- 1022..1023}. 2 powi e \<le> \<bar>x\<bar>}"
  have "Max ?S \<in> ?S" by (rule Max_in) simp_all
  with assms show ?thesis by (auto simp: binade_def)
qed

lemma binade_upper:
  assumes "\<bar>x\<bar> < 2 powi 1024"
  shows "\<bar>x\<bar> < 2 powi (binade x + 1)"
proof (rule ccontr)
  let ?S = "insert (- 1022) {e \<in> {- 1022..1023}. 2 powi e \<le> \<bar>x\<bar>}"
  assume "\<not> \<bar>x\<bar> < 2 powi (binade x + 1)"
  then have le: "2 powi (binade x + 1) \<le> \<bar>x\<bar>" by simp
  with assms have "(2::real) powi (binade x + 1) < 2 powi 1024" by linarith
  then have "binade x + 1 < 1024" by (intro power_int_le_imp_less_exp[of "2::real"]) simp_all
  with binade_range[of x] le have "binade x + 1 \<in> ?S" by simp
  then have "binade x + 1 \<le> Max ?S" by (intro Max_ge) simp_all
  then show False by (simp add: binade_def)
qed

lemma py_round_numeral [simp]:
  "py_round (numeral k) = numeral k" "py_round (- numeral k) = - numeral k" "py_round 1 = 1"
  using py_round_of_int[of "numeral k"] py_round_of_int[of "- numeral k"] py_round_of_int[of 1]
  by simp_all

lemma nearest_f64_eval:
  assumes "- 1022 \<le> e" "e \<le> 1023" "2 powi e \<le> \<bar>x\<bar>" "\<bar>x\<bar> < 2 powi (e + 1)"
  shows "nearest_f64 x = real_of_int (py_round (x / 2 powi (e - 52))) * 2 powi (e - 52)"
  by (simp add: nearest_f64_def Let_def binade_eq[OF assms])

lemma nearest_f64_zero [simp]: "nearest_f64 0 = 0"
  by (simp add: nearest_f64_def)

lemma nearest_f64_nonneg: "0 \<le> x \<Longrightarrow> 0 \<le> nearest_f64 x"
  by (simp add: nearest_f64_def Let_def py_round_nonneg)

lemma nearest_f64_nonpos: "x \<le> 0 \<Longrightarrow> nearest_f64 x \<le> 0"
  by (simp add: nearest_f64_def Let_def py_round_nonpos mult_nonpos_nonneg divide_nonpos_nonneg)

lemma small_le_one: "(2::real) powi (- 1022) \<le> 1"
  using power_int_increasing[of "- 1022" 0 "2::real"] by simp

lemma abs_real_of_int_less:
  assumes "\<bar>m\<bar> < 2 ^ 53"
  shows "\<bar>real_of_int m\<bar> < 2 ^ 53"
proof -
  from assms have "real_of_int \<bar>m\<bar> < real_of_int (2 ^ 53)" by (simp only: of_int_less_iff)
  then show ?thesis by simp
qed

lemma nearest_f64_of_int:
  assumes "\<bar>m\<bar> < 2 ^ 53"
  shows "nearest_f64 (real_of_int m) = real_of_int m"
proof (cases "m = 0")
  case True
  then show ?thesis by simp
next
  case False
  let ?x = "real_of_int m"
  let ?e = "binade ?x"
  from False have "1 \<le> \<bar>m\<bar>" by simp
  then have "real_of_int 1 \<le> real_of_int \<bar>m\<bar>" by (simp only: of_int_le_iff)
  then have one: "1 \<le> \<bar>?x\<bar>" by simp
  with small_le_one have lo: "2 powi (- 1022) \<le> \<bar>?x\<bar>" by linarith
  from binade_lower[OF lo] have l: "2 powi ?e \<le> \<bar>?x\<bar>" .
  from abs_real_of_int_less[OF assms] l have "(2::real) powi ?e < 2 powi 53" by simp
  then have "?e < 53" by (intro power_int_le_imp_less_exp[of "2::real"]) simp_all
  then have e52: "?e \<le> 52" by simp
  define k where "k = nat (52 - ?e)"
  with e52 have ek: "?e - 52 = - int k" by simp
  have "?x / 2 powi (?e - 52) = ?x * 2 ^ k"
    by (simp add: ek power_int_minus_divide)
  also have "\<dots> = real_of_int (m * 2 ^ k)" by simp
  finally have q: "?x / 2 powi (?e - 52) = real_of_int (m * 2 ^ k)" .
  have "nearest_f64 ?x = real_of_int (m * 2 ^ k) * 2 powi (?e - 52)"
    unfolding nearest_f64_def Let_def q py_round_of_int ..
  also have "\<dots> = ?x" by (simp add: ek power_int_minus_divide)
  finally show ?thesis .
qed

lemma overflow_threshold_pos: "2 ^ 53 < overflow_threshold"
  by (simp add: overflow_threshold_def)

lemma to_f64_Fin:
  "\<bar>x\<bar> < overflow_threshold \<Longrightarrow> to_f64 x = Fin (nearest_f64 x)"
  by (auto simp: to_f64_def)

lemma to_f64_eq_Fin_D: "to_f64 x = Fin y \<Longrightarrow> \<bar>x\<bar> < overflow_threshold \<and> y = nearest_f64 x"
  by (auto simp: to_f64_def split: if_splits)

lemma to_f64_not_NaN [simp]: "to_f64 x \<noteq> NaN"
  by (simp add: to_f64_def)

lemma to_f64_of_int:
  assumes "\<bar>m\<bar> < 2 ^ 53"
  shows "to_f64 (real_of_int m) = Fin (real_of_int m)"
proof -
  from abs_real_of_int_less[OF assms] overflow_threshold_pos
  have "\<bar>real_of_int m\<bar> < overflow_threshold" by linarith
  from to_f64_Fin[OF this] nearest_f64_of_int[OF assms] show ?thesis by simp
qed

lemma f64_of_int_exact: "\<bar>m\<bar> < 2 ^ 53 \<Longrightarrow> f64_of_int m = Fin (real_of_int m)"
  by (simp add: f64_of_int_def to_f64_of_int)

lemma f64_of_nat_exact:
  assumes "n < 2 ^ 53"
  shows "f64_of_nat n = Fin (real n)"
proof -
  from assms have "\<bar>int n\<bar> < 2 ^ 53" by simp
  from to_f64_of_int[OF this] show ?thesis by (simp add: f64_of_nat_def)
qed

subsection \<open>Loops\<close>

lemma for_loop_append:
  "for_loop (xs @ ys) body s =
     (case for_loop xs body s of Inl e \<Rightarrow> Inl e | Inr s' \<Rightarrow> for_loop ys body s')"
  by (induction xs arbitrary: s) (auto split: sum.splits)

lemma aperture_col_frame:
  assumes "aperture_col np frame variance ord_pos ap_rad uniform c st = Inr st'"
  shows "length (fst st') = length (fst st) \<and> length (snd st') = length (snd st)
         \<and> (\<forall>k. k \<noteq> c \<longrightarrow> fst st' ! k = fst st ! k \<and> snd st' ! k = snd st ! k)"
  using assms
  by (auto simp: aperture_col_def Let_def split: if_splits prod.splits sum.splits)

lemma aperture_col_local:
  assumes "aperture_col np frame variance ord_pos ap_rad uniform c st = Inr st'"
    and "c < length (fst st)" "c < length (snd st)"
    and "c < length (fst st2)" "c < length (snd st2)"
    and "fst st2 ! c = fst st ! c" "snd st2 ! c = snd st ! c"
  shows "\<exists>st2'. aperture_col np frame variance ord_pos ap_rad uniform c st2 = Inr st2'
           \<and> fst st2' ! c = fst st' ! c \<and> snd st2' ! c = snd st' ! c"
  using assms
  by (cases st2) (auto simp: aperture_col_def Let_def split: if_splits prod.splits sum.splits)

lemma aperture_loop_untouched:
  assumes "for_loop cs (aperture_col np frame variance ord_pos ap_rad uniform) st = Inr st'"
  shows "length (fst st') = length (fst st) \<and> length (snd st') = length (snd st)
         \<and> (\<forall>k. k \<notin> set cs \<longrightarrow> fst st' ! k = fst st ! k \<and> snd st' ! k = snd st ! k)"
  using assms
proof (induction cs arbitrary: st)
  case Nil
  then show ?case by simp
next
  case (Cons x xs)
  from Cons.prems obtain st1 where
    s1: "aperture_col np frame variance ord_pos ap_rad uniform x st = Inr st1"
    and s2: "for_loop xs (aperture_col np frame variance ord_pos ap_rad uniform) st1 = Inr st'"
    by (auto split: sum.splits)
  from aperture_col_frame[OF s1] Cons.IH[OF s2] show ?case by auto
qed

lemma aperture_loop_local:
  assumes "for_loop cs (aperture_col np frame variance ord_pos ap_rad uniform) st = Inr st'"
    and "distinct cs" "c \<in> set cs" "c < length (fst st)" "c < length (snd st)"
  shows "\<exists>st1. aperture_col np frame variance ord_pos ap_rad uniform c st = Inr st1
           \<and> fst st' ! c = fst st1 ! c \<and> snd st' ! c = snd st1 ! c"
  using assms
proof (induction cs arbitrary: st)
  case Nil
  then show ?case by simp
next
  case (Cons x xs)
  from Cons.prems(1) obtain st2 where
    s1: "aperture_col np frame variance ord_pos ap_rad uniform x st = Inr st2"
    and s2: "for_loop xs (aperture_col np frame variance ord_pos ap_rad uniform) st2 = Inr st'"
    by (auto split: sum.splits)
  note fr = aperture_col_frame[OF s1]
  show ?case
  proof (cases "c = x")
    case True
    with Cons.prems(2) have "c \<notin> set xs" by simp
    with aperture_loop_untouched[OF s2]
    have "fst st' ! c = fst st2 ! c \<and> snd st' ! c = snd st2 ! c" by blast
    with s1 True show ?thesis by auto
  next
    case False
    with Cons.prems have cin: "c \<in> set xs" and dx: "distinct xs" by auto
    from fr Cons.prems have l2: "c < length (fst st2)" "c < length (snd st2)" by auto
    from Cons.IH[OF s2 dx cin l2] obtain st1' where
      a: "aperture_col np frame variance ord_pos ap_rad uniform c st2 = Inr st1'"
      and b: "fst st' ! c = fst st1' ! c" "snd st' ! c = snd st1' ! c" by blast
    from fr False have agree: "fst st ! c = fst st2 ! c" "snd st ! c = snd st2 ! c" by auto
    from aperture_col_local[OF a l2 Cons.prems(4,5) agree] b show ?thesis by auto
  qed
qed

text \<open>A column's pass returns when its window computation does.\<close>

lemma aperture_col_total:
  assumes "c < length ord_pos" "c < shape2_1 variance"
    and "out_of_range (shape2_0 frame) (ord_pos ! c)
         \<or> (\<exists>w. aperture_window (shape2_0 frame) (ord_pos ! c) ap_rad = Inr w)"
  shows "\<exists>st'. aperture_col np frame variance ord_pos ap_rad uniform c st = Inr st'"
  using assms by (auto simp: aperture_col_def Let_def split: prod.splits)

lemma aperture_loop_total:
  assumes "\<forall>c\<in>set cs. c < length ord_pos \<and> c < shape2_1 variance
             \<and> (out_of_range (shape2_0 frame) (ord_pos ! c)
                \<or> (\<exists>w. aperture_window (shape2_0 frame) (ord_pos ! c) ap_rad = Inr w))"
  shows "\<exists>st'. for_loop cs (aperture_col np frame variance ord_pos ap_rad uniform) st = Inr st'"
  using assms
proof (induction cs arbitrary: st)
  case Nil
  then show ?case by simp
next
  case (Cons x xs)
  from Cons.prems have "x < length ord_pos" "x < shape2_1 variance"
    "out_of_range (shape2_0 frame) (ord_pos ! x)
         \<or> (\<exists>w. aperture_window (shape2_0 frame) (ord_pos ! x) ap_rad = Inr w)" by simp_all
  from aperture_col_total[OF this] obtain st1 where
    s1: "aperture_col np frame variance ord_pos ap_rad uniform x st = Inr st1" by blast
  from Cons.prems have "\<forall>c\<in>set xs. c < length ord_pos \<and> c < shape2_1 variance
             \<and> (out_of_range (shape2_0 frame) (ord_pos ! c)
                \<or> (\<exists>w. aperture_window (shape2_0 frame) (ord_pos ! c) ap_rad = Inr w))" by simp
  from Cons.IH[OF this, of st1] s1 show ?case by simp
qed

lemma aperture_extract_column:
  assumes "aperture_extract np frame variance ord_pos ap_rad uniform = Inr (spec, var)"
    and "col < shape2_1 frame"
  shows "length spec = shape2_1 frame \<and> length var = shape2_1 frame \<and>
         (\<exists>st1. aperture_col np frame variance ord_pos ap_rad uniform col
                  (replicate (shape2_1 frame) (Fin 0), replicate (shape2_1 frame) (Fin 0)) = Inr st1
           \<and> spec ! col = fst st1 ! col \<and> var ! col = snd st1 ! col)"
proof -
  let ?init = "(replicate (shape2_1 frame) (Fin 0), replicate (shape2_1 frame) (Fin 0))"
  from assms(1) have
    run: "for_loop [0..<shape2_1 frame] (aperture_col np frame variance ord_pos ap_rad uniform) ?init
            = Inr (spec, var)"
    by (simp add: aperture_extract_def Let_def)
  from aperture_loop_untouched[OF run]
  have len: "length spec = shape2_1 frame" "length var = shape2_1 frame"
    by simp_all
  from aperture_loop_local[OF run, of col] assms(2) len show ?thesis by simp
qed

lemma aperture_extract_total:
  assumes "shape2_1 frame \<le> length ord_pos" "shape2_1 frame \<le> shape2_1 variance"
    and "\<forall>c<shape2_1 frame. out_of_range (shape2_0 frame) (ord_pos ! c)
                \<or> (\<exists>w. aperture_window (shape2_0 frame) (ord_pos ! c) ap_rad = Inr w)"
  shows "\<exists>spec var. aperture_extract np frame variance ord_pos ap_rad uniform = Inr (spec, var)"
proof -
  have "\<forall>c\<in>set [0..<shape2_1 frame]. c < length ord_pos \<and> c < shape2_1 variance
             \<and> (out_of_range (shape2_0 frame) (ord_pos ! c)
                \<or> (\<exists>w. aperture_window (shape2_0 frame) (ord_pos ! c) ap_rad = Inr w))"
    using assms by auto
  from aperture_loop_total[OF this] show ?thesis
    by (simp add: aperture_extract_def Let_def)
qed

lemma for_loop_map_Pair:
  "for_loop (map (Pair i) cs) (\<lambda>(a, b). g a b) s = for_loop cs (g i) s"
  by (induction cs arbitrary: s) (auto split: sum.splits)

lemma for_loop_product:
  "for_loop (List.product is cs) (\<lambda>(a, b). g a b) s = for_loop is (\<lambda>i. for_loop cs (g i)) s"
  by (induction "is" arbitrary: s) (auto simp: for_loop_append for_loop_map_Pair split: sum.splits)

lemma flux_loops_flat:
  "flux_loops frame variance ord_pos ap_rad =
     for_loop (List.product [0..<shape3_0 frame] [0..<shape3_2 frame])
       (\<lambda>(integration, col). flux_col frame variance ord_pos ap_rad integration col)
       \<lparr>col_array_pos = zeros3 (shape3_0 frame) (shape3_2 frame) 2, pix_list = [], col_pos = 0\<rparr>"
  by (simp add: flux_loops_def Let_def for_loop_product)

lemma assign_column_ok:
  assumes "assign_column npix vals = Inr c" "0 \<le> npix"
  shows "length c = nat npix"
  using assms by (auto simp: assign_column_def split: if_splits)

lemma flux_col_cases:
  assumes "flux_col frame variance ord_pos ap_rad i c st = Inr st'"
  shows "st' = st\<lparr>col_array_pos := set3 (col_array_pos st) i c 0 (col_pos st)\<rparr>
         \<or> (\<exists>blk. st' = \<lparr>col_array_pos =
                            set3 (set3 (col_array_pos st) i c 0 (col_pos st)) i c 1 (int (length blk)),
                          pix_list = pix_list st @ [blk],
                          col_pos = col_pos st + int (length blk)\<rparr>
                  \<and> (\<forall>s\<in>set blk. s_col s = f64_of_nat c))"
proof (cases "out_of_range (shape3_1 frame) (at2 ord_pos i c)")
  case True
  with assms show ?thesis
    by (auto simp: flux_col_def Let_def split: if_splits)
next
  case False
  from assms False obtain i0 i1 where
    w: "aperture_window (shape3_1 frame) (at2 ord_pos i c) ap_rad = Inr (i0, i1)"
    by (auto simp: flux_col_def Let_def split: if_splits sum.splits)
  from assms False w have np: "0 \<le> i1 - i0"
    by (auto simp: flux_col_def Let_def split: if_splits)
  from assms False w np obtain c0 c1 c2 where
    a0: "assign_column (i1 - i0) (map (\<lambda>k. fsub (f64_of_int k) (at2 ord_pos i c)) [i0..i1 - 1])
           = Inr c0"
    and a1: "assign_column (i1 - i0)
               (map (\<lambda>r. at3 frame i r c) (slice_rows (shape3_1 frame) i0 i1)) = Inr c1"
    and a2: "assign_column (i1 - i0)
               (map (\<lambda>r. at3 variance i r c) (slice_rows (shape3_1 variance) i0 i1)) = Inr c2"
    and st': "st' = \<lparr>col_array_pos =
                      set3 (set3 (col_array_pos st) i c 0 (col_pos st)) i c 1 (i1 - i0),
                    pix_list = pix_list st
                      @ [zip c0 (zip c1 (zip c2 (replicate (nat (i1 - i0)) (f64_of_nat c))))],
                    col_pos = col_pos st + (i1 - i0)\<rparr>"
    by (auto simp: flux_col_def Let_def split: if_splits sum.splits)
  let ?blk = "zip c0 (zip c1 (zip c2 (replicate (nat (i1 - i0)) (f64_of_nat c))))"
  from assign_column_ok[OF a0 np] assign_column_ok[OF a1 np] assign_column_ok[OF a2 np]
  have len: "length ?blk = nat (i1 - i0)" by simp
  with np have ilen: "int (length ?blk) = i1 - i0" by simp
  have cols: "\<forall>s\<in>set ?blk. s_col s = f64_of_nat c"
    by (auto simp: s_col_def dest!: set_zip_rightD)
  from st' ilen cols show ?thesis by auto
qed

lemma set3_simps [simp]:
  "at3 (set3 arr i j k v) a b c = (if a = i \<and> b = j \<and> c = k then v else at3 arr a b c)"
  "shape3_0 (set3 arr i j k v) = shape3_0 arr"
  "shape3_1 (set3 arr i j k v) = shape3_1 arr"
  "shape3_2 (set3 arr i j k v) = shape3_2 arr"
  by (simp_all add: set3_def)

lemma flux_flat_inv:
  assumes "for_loop ps (\<lambda>(i, c). flux_col frame variance ord_pos ap_rad i c) st = Inr st'"
    and "distinct ps"
    and "\<forall>q\<in>set ps. at3 (col_array_pos st) (fst q) (snd q) 1 = 0"
  shows "\<exists>bs. length bs = length ps
           \<and> concat (pix_list st') = concat (pix_list st) @ concat bs
           \<and> col_pos st' = col_pos st + int (length (concat bs))
           \<and> (\<forall>j<length ps.
                 at3 (col_array_pos st') (fst (ps ! j)) (snd (ps ! j)) 0
                   = col_pos st + int (length (concat (take j bs)))
                 \<and> at3 (col_array_pos st') (fst (ps ! j)) (snd (ps ! j)) 1 = int (length (bs ! j))
                 \<and> (\<forall>s\<in>set (bs ! j). s_col s = f64_of_nat (snd (ps ! j))))
           \<and> (\<forall>a b k. (a, b) \<notin> set ps \<longrightarrow>
                 at3 (col_array_pos st') a b k = at3 (col_array_pos st) a b k)
           \<and> shape3_0 (col_array_pos st') = shape3_0 (col_array_pos st)
           \<and> shape3_1 (col_array_pos st') = shape3_1 (col_array_pos st)
           \<and> shape3_2 (col_array_pos st') = shape3_2 (col_array_pos st)"
  using assms
proof (induction ps arbitrary: st)
  case Nil
  then show ?case by simp
next
  case (Cons q qs)
  obtain i c where q: "q = (i, c)" by (cases q)
  from Cons.prems(1) q obtain st1 where
    s1: "flux_col frame variance ord_pos ap_rad i c st = Inr st1"
    and s2: "for_loop qs (\<lambda>(i, c). flux_col frame variance ord_pos ap_rad i c) st1 = Inr st'"
    by (auto split: sum.splits)
  from Cons.prems(2) q have dq: "distinct qs" and nin: "(i, c) \<notin> set qs" by auto
  from Cons.prems(3) q have z0: "at3 (col_array_pos st) i c 1 = 0" by simp
  from flux_col_cases[OF s1] obtain b where
    cap1: "col_array_pos st1
             = set3 (set3 (col_array_pos st) i c 0 (col_pos st)) i c 1 (int (length b))
           \<or> (b = [] \<and> col_array_pos st1 = set3 (col_array_pos st) i c 0 (col_pos st))"
    and pl1: "concat (pix_list st1) = concat (pix_list st) @ b"
    and cp1: "col_pos st1 = col_pos st + int (length b)"
    and colb: "\<forall>s\<in>set b. s_col s = f64_of_nat c"
  proof (elim disjE exE conjE)
    assume "st1 = st\<lparr>col_array_pos := set3 (col_array_pos st) i c 0 (col_pos st)\<rparr>"
    then show thesis using that[of "[]"] by simp
  next
    fix blk
    assume "st1 = \<lparr>col_array_pos =
                      set3 (set3 (col_array_pos st) i c 0 (col_pos st)) i c 1 (int (length blk)),
                    pix_list = pix_list st @ [blk],
                    col_pos = col_pos st + int (length blk)\<rparr>"
      and "\<forall>s\<in>set blk. s_col s = f64_of_nat c"
    then show thesis using that[of blk] by simp
  qed
  from cap1 z0 have at1: "at3 (col_array_pos st1) i c 0 = col_pos st"
    "at3 (col_array_pos st1) i c 1 = int (length b)"
    by auto
  from cap1 have other: "\<And>a b' k. (a, b') \<noteq> (i, c) \<Longrightarrow>
      at3 (col_array_pos st1) a b' k = at3 (col_array_pos st) a b' k"
    by auto
  from cap1 have sh1: "shape3_0 (col_array_pos st1) = shape3_0 (col_array_pos st)"
    "shape3_1 (col_array_pos st1) = shape3_1 (col_array_pos st)"
    "shape3_2 (col_array_pos st1) = shape3_2 (col_array_pos st)"
    by auto
  have z1: "\<forall>q\<in>set qs. at3 (col_array_pos st1) (fst q) (snd q) 1 = 0"
  proof
    fix q' assume q': "q' \<in> set qs"
    with nin have "(fst q', snd q') \<noteq> (i, c)" by auto
    from other[OF this] Cons.prems(3) q' show "at3 (col_array_pos st1) (fst q') (snd q') 1 = 0"
      by simp
  qed
  from Cons.IH[OF s2 dq z1] obtain bs where
    len: "length bs = length qs"
    and pl: "concat (pix_list st') = concat (pix_list st1) @ concat bs"
    and cp: "col_pos st' = col_pos st1 + int (length (concat bs))"
    and ent: "\<forall>j<length qs.
                 at3 (col_array_pos st') (fst (qs ! j)) (snd (qs ! j)) 0
                   = col_pos st1 + int (length (concat (take j bs)))
                 \<and> at3 (col_array_pos st') (fst (qs ! j)) (snd (qs ! j)) 1 = int (length (bs ! j))
                 \<and> (\<forall>s\<in>set (bs ! j). s_col s = f64_of_nat (snd (qs ! j)))"
    and unt: "\<forall>a b k. (a, b) \<notin> set qs \<longrightarrow>
                 at3 (col_array_pos st') a b k = at3 (col_array_pos st1) a b k"
    and sh: "shape3_0 (col_array_pos st') = shape3_0 (col_array_pos st1)"
      "shape3_1 (col_array_pos st') = shape3_1 (col_array_pos st1)"
      "shape3_2 (col_array_pos st') = shape3_2 (col_array_pos st1)"
    by blast
  let ?bs = "b # bs"
  have e: "\<forall>j<length (q # qs).
             at3 (col_array_pos st') (fst ((q # qs) ! j)) (snd ((q # qs) ! j)) 0
               = col_pos st + int (length (concat (take j ?bs)))
             \<and> at3 (col_array_pos st') (fst ((q # qs) ! j)) (snd ((q # qs) ! j)) 1
                 = int (length (?bs ! j))
             \<and> (\<forall>s\<in>set (?bs ! j). s_col s = f64_of_nat (snd ((q # qs) ! j)))"
  proof (intro allI impI)
    fix j assume j: "j < length (q # qs)"
    show "at3 (col_array_pos st') (fst ((q # qs) ! j)) (snd ((q # qs) ! j)) 0
               = col_pos st + int (length (concat (take j ?bs)))
             \<and> at3 (col_array_pos st') (fst ((q # qs) ! j)) (snd ((q # qs) ! j)) 1
                 = int (length (?bs ! j))
             \<and> (\<forall>s\<in>set (?bs ! j). s_col s = f64_of_nat (snd ((q # qs) ! j)))"
    proof (cases j)
      case 0
      with q nin unt at1 colb show ?thesis by simp
    next
      case (Suc j')
      with j have "j' < length qs" by simp
      with ent Suc cp1 show ?thesis by simp
    qed
  qed
  have u: "\<forall>a b' k. (a, b') \<notin> set (q # qs) \<longrightarrow>
             at3 (col_array_pos st') a b' k = at3 (col_array_pos st) a b' k"
    using unt other q by auto
  show ?case
    apply (rule exI[of _ ?bs])
    using len pl pl1 cp cp1 e u sh sh1 by simp
qed

lemma materialize_fold:
  "fold (\<lambda>p (arr, entry). (let N = length p in (assign_rows arr entry (entry + N) p, entry + N)))
        pl (pre @ replicate (sum_list (map length pl)) z, length pre)
   = (pre @ concat pl, length pre + sum_list (map length pl))"
proof (induction pl arbitrary: pre)
  case Nil
  then show ?case by simp
next
  case (Cons p pl)
  have "assign_rows (pre @ replicate (length p + sum_list (map length pl)) z)
          (length pre) (length pre + length p) p
        = (pre @ p) @ replicate (sum_list (map length pl)) z"
    by (simp add: assign_rows_def replicate_add)
  with Cons.IH[of "pre @ p"] show ?case by (simp add: Let_def add.assoc)
qed

lemma materialize_concat:
  "pl \<noteq> [] \<Longrightarrow> materialize pl = Inr (concat pl)"
  using materialize_fold[of pl "[]" "(Fin 0, Fin 0, Fin 0, Fin 0)"] by (simp add: materialize_def Let_def)

lemma materialize_empty: "materialize [] = Inl TypeError"
  by (simp add: materialize_def)

lemma flux_coo_Inr:
  assumes "flux_coo frame variance ord_pos ap_rad = Inr (pix, cap)"
  shows "\<exists>st. flux_loops frame variance ord_pos ap_rad = Inr st \<and> pix_list st \<noteq> []
              \<and> pix = concat (pix_list st) \<and> cap = col_array_pos st"
proof -
  from assms obtain st where st: "flux_loops frame variance ord_pos ap_rad = Inr st"
    and m: "materialize (pix_list st) = Inr pix" and c: "cap = col_array_pos st"
    by (auto simp: flux_coo_def split: sum.splits)
  from m have ne: "pix_list st \<noteq> []" by (auto simp: materialize_empty)
  from materialize_concat[OF ne] m have "pix = concat (pix_list st)" by simp
  with st ne c show ?thesis by blast
qed

lemma product_upt_nth:
  assumes "i < n" "c < m"
  shows "i * m + c < n * m" "List.product [0..<n] [0..<m] ! (i * m + c) = (i, c)"
proof -
  from assms have "i * m + c < i * m + m" by simp
  also have "\<dots> = Suc i * m" by simp
  also from assms have "\<dots> \<le> n * m" by (intro mult_le_mono1) simp
  finally show lt: "i * m + c < n * m" .
  from lt assms show "List.product [0..<n] [0..<m] ! (i * m + c) = (i, c)"
    by (simp add: product_nth)
qed

lemma flux_coo_runs:
  assumes "flux_coo frame variance ord_pos ap_rad = Inr (pix, cap)"
  shows "\<exists>bs. length bs = shape3_0 frame * shape3_2 frame \<and> pix = concat bs
           \<and> shape3_0 cap = shape3_0 frame \<and> shape3_1 cap = shape3_2 frame \<and> shape3_2 cap = 2
           \<and> (\<forall>i<shape3_0 frame. \<forall>c<shape3_2 frame.
                 at3 cap i c 0 = int (length (concat (take (i * shape3_2 frame + c) bs)))
                 \<and> at3 cap i c 1 = int (length (bs ! (i * shape3_2 frame + c)))
                 \<and> (\<forall>s\<in>set (bs ! (i * shape3_2 frame + c)). s_col s = f64_of_nat c))"
proof -
  let ?n = "shape3_0 frame" and ?m = "shape3_2 frame"
  let ?ps = "List.product [0..<?n] [0..<?m]"
  let ?init = "\<lparr>col_array_pos = zeros3 ?n ?m 2, pix_list = [], col_pos = 0\<rparr>"
  from flux_coo_Inr[OF assms] obtain st where
    st: "flux_loops frame variance ord_pos ap_rad = Inr st"
    and pix: "pix = concat (pix_list st)" and cap: "cap = col_array_pos st" by blast
  from st have run: "for_loop ?ps (\<lambda>(i, c). flux_col frame variance ord_pos ap_rad i c) ?init = Inr st"
    by (simp add: flux_loops_flat)
  have d: "distinct ?ps" by (simp add: distinct_product)
  have z: "\<forall>q\<in>set ?ps. at3 (col_array_pos ?init) (fst q) (snd q) 1 = 0"
    by (simp add: zeros3_def)
  from flux_flat_inv[OF run d z] obtain bs where
    len: "length bs = length ?ps"
    and pl: "concat (pix_list st) = concat bs"
    and ent: "\<forall>j<length ?ps.
                 at3 (col_array_pos st) (fst (?ps ! j)) (snd (?ps ! j)) 0
                   = int (length (concat (take j bs)))
                 \<and> at3 (col_array_pos st) (fst (?ps ! j)) (snd (?ps ! j)) 1 = int (length (bs ! j))
                 \<and> (\<forall>s\<in>set (bs ! j). s_col s = f64_of_nat (snd (?ps ! j)))"
    and sh: "shape3_0 (col_array_pos st) = ?n" "shape3_1 (col_array_pos st) = ?m"
      "shape3_2 (col_array_pos st) = 2"
    by (auto simp: zeros3_def)
  have "\<forall>i<?n. \<forall>c<?m.
          at3 cap i c 0 = int (length (concat (take (i * ?m + c) bs)))
          \<and> at3 cap i c 1 = int (length (bs ! (i * ?m + c)))
          \<and> (\<forall>s\<in>set (bs ! (i * ?m + c)). s_col s = f64_of_nat c)"
  proof (intro allI impI)
    fix i c assume ic: "i < ?n" "c < ?m"
    from product_upt_nth[OF ic] have "i * ?m + c < length ?ps" "?ps ! (i * ?m + c) = (i, c)"
      by (simp_all add: length_product)
    with ent cap show "at3 cap i c 0 = int (length (concat (take (i * ?m + c) bs)))
          \<and> at3 cap i c 1 = int (length (bs ! (i * ?m + c)))
          \<and> (\<forall>s\<in>set (bs ! (i * ?m + c)). s_col s = f64_of_nat c)"
      by (metis fst_conv snd_conv)
  qed
  with len pl pix cap sh show ?thesis by (auto simp: length_product)
qed

lemma fold_update_nth:
  assumes "distinct idx" "\<forall>j\<in>set idx. j < length a" "k < length a"
  shows "length (fold (\<lambda>j a. a[j := f j (a ! j)]) idx a) = length a
         \<and> fold (\<lambda>j a. a[j := f j (a ! j)]) idx a ! k = (if k \<in> set idx then f k (a ! k) else a ! k)"
  using assms
proof (induction idx arbitrary: a)
  case Nil
  then show ?case by simp
next
  case (Cons j idx)
  let ?a = "a[j := f j (a ! j)]"
  from Cons.prems have "distinct idx" "\<forall>j\<in>set idx. j < length ?a" "k < length ?a" by simp_all
  from Cons.IH[OF this] Cons.prems show ?case by (auto simp: nth_list_update)
qed

lemma slice_rows_props:
  "distinct (slice_rows n a b)" "\<forall>j\<in>set (slice_rows n a b). j < n"
  by (auto simp: slice_rows_def slice_bound_def split: if_splits)

lemma norm_col_nth:
  assumes "norm_col np pix cap spec i c a = Inr a'" "length a = length pix"
  shows "length a' = length a"
    and "k < length a \<Longrightarrow>
           a' ! k = (if k \<in> set (run_idx pix cap i c)
                     then (s_off (a ! k), fdiv (s_flux (pix ! k)) (spec_norm np pix cap spec i c),
                           fdiv (s_var (pix ! k))
                                (float_power np (spec_norm np pix cap spec i c) (Fin 2)),
                           s_col (a ! k))
                     else a ! k)"
proof -
  let ?idx = "run_idx pix cap i c"
  let ?nrm = "spec_norm np pix cap spec i c"
  let ?f1 = "\<lambda>k s. (s_off s, fdiv (s_flux (pix ! k)) ?nrm, s_var s, s_col s)"
  let ?f2 = "\<lambda>k s. (s_off s, s_flux s, fdiv (s_var (pix ! k)) (float_power np ?nrm (Fin 2)),
                    s_col s)"
  let ?na1 = "fold (\<lambda>k a. a[k := ?f1 k (a ! k)]) ?idx a"
  let ?na2 = "fold (\<lambda>k a. a[k := ?f2 k (a ! k)]) ?idx ?na1"
  from assms(1) have a': "a' = ?na2"
    by (auto simp: norm_col_def run_idx_def spec_norm_def Let_def split: if_splits option.splits)
  have d: "distinct ?idx" and b: "\<forall>j\<in>set ?idx. j < length a"
    using slice_rows_props[of "length pix"] assms(2) by (simp_all add: run_idx_def)
  have l1: "length ?na1 = length a"
  proof (cases "length a")
    case 0
    with b have "?idx = []" by (cases ?idx) auto
    then show ?thesis by simp
  next
    case (Suc n)
    then have "0 < length a" by simp
    from fold_update_nth[OF d b this, of ?f1] show ?thesis by simp
  qed
  from b l1 have b1: "\<forall>j\<in>set ?idx. j < length ?na1" by simp
  have l2: "length ?na2 = length ?na1"
  proof (cases "length ?na1")
    case 0
    with b1 have "?idx = []" by (cases ?idx) auto
    then show ?thesis by simp
  next
    case (Suc n)
    then have "0 < length ?na1" by simp
    from fold_update_nth[OF d b1 this, of ?f2] show ?thesis by simp
  qed
  from a' l1 l2 show "length a' = length a" by simp
  assume k: "k < length a"
  with l1 have k1: "k < length ?na1" by simp
  from fold_update_nth[OF d b k, of ?f1]
  have n1: "?na1 ! k = (if k \<in> set ?idx then ?f1 k (a ! k) else a ! k)" by simp
  from fold_update_nth[OF d b1 k1, of ?f2]
  have n2: "?na2 ! k = (if k \<in> set ?idx then ?f2 k (?na1 ! k) else ?na1 ! k)" by simp
  from n1 n2 a' show "a' ! k = (if k \<in> set ?idx
                     then (s_off (a ! k), fdiv (s_flux (pix ! k)) ?nrm,
                           fdiv (s_var (pix ! k)) (float_power np ?nrm (Fin 2)), s_col (a ! k))
                     else a ! k)"
    by (simp add: s_off_def s_flux_def s_var_def s_col_def)
qed

subsection \<open>The window and aperture_extract\<close>

lemma to_f64_eval:
  assumes "- 1022 \<le> e" "e \<le> 1023" "2 powi e \<le> \<bar>x\<bar>" "\<bar>x\<bar> < 2 powi (e + 1)"
    and "\<bar>x\<bar> < 2 ^ 53"
  shows "to_f64 x = Fin (real_of_int (py_round (x / 2 powi (e - 52))) * 2 powi (e - 52))"
proof -
  from assms(5) overflow_threshold_pos have "\<bar>x\<bar> < overflow_threshold" by linarith
  from to_f64_Fin[OF this] nearest_f64_eval[OF assms(1-4)] show ?thesis by simp
qed

lemma to_f64_int_simps [simp]:
  "to_f64 0 = Fin 0" "to_f64 1 = Fin 1" "to_f64 (- 1) = Fin (- 1)"
  "(numeral k :: int) < 2 ^ 53 \<Longrightarrow> to_f64 (numeral k) = Fin (numeral k)"
  "(numeral k :: int) < 2 ^ 53 \<Longrightarrow> to_f64 (- numeral k) = Fin (- numeral k)"
  using to_f64_of_int[of 0] to_f64_of_int[of 1] to_f64_of_int[of "- 1"]
    to_f64_of_int[of "numeral k"] to_f64_of_int[of "- numeral k"]
  by simp_all

lemma lit_8_6: "to_f64 (43 / 5) = Fin (4841369599423283 / 562949953421312)"
  by (subst to_f64_eval[where e = 3]) (simp_all add: py_round_def power_int_minus_divide)

lemma aperture_window_Fin:
  assumes "fsub (Fin p) (Fin r) = Fin d" "fadd (Fin p) (Fin r) = Fin s"
  shows "aperture_window L (Fin p) (Fin r)
           = Inr (if py_round d < 0 then 0 else py_round d,
                  if py_round s \<ge> int L then int L - 1 else py_round s)"
  using assms by (simp add: aperture_window_def Let_def)

text \<open>
Claim C5, as amended. For a radius \<open>0 \<le> r \<le> p\<close> whose sum \<open>s = p + r\<close>, rounded to
  a double as the code computes it, is below \<open>L - 1/2\<close>, neither bound of the window is
  clamped: the window is \<open>(round(d), round(s))\<close> with \<open>d\<close> the double \<open>p - r\<close>.
  \<open>p < L - r\<close> alone is not enough: \<open>round(s)\<close> can reach \<open>L\<close> and is then
  lowered to \<open>L - 1\<close>.
\<close>

theorem window_unclamped:
  assumes "0 \<le> r" "r \<le> p" "fadd (Fin p) (Fin r) = Fin s" "s < real L - 1 / 2"
  shows "\<exists>d. fsub (Fin p) (Fin r) = Fin d
           \<and> aperture_window L (Fin p) (Fin r) = Inr (py_round d, py_round s)
           \<and> snd (py_round d, py_round s) - fst (py_round d, py_round s)
               = py_round s - py_round d"
proof -
  from assms(3) have "to_f64 (p + r) = Fin s" by simp
  from to_f64_eq_Fin_D[OF this] have b: "\<bar>p + r\<bar> < overflow_threshold" by simp
  with assms(1,2) have "\<bar>p - r\<bar> < overflow_threshold" by linarith
  from to_f64_Fin[OF this] have d: "fsub (Fin p) (Fin r) = Fin (nearest_f64 (p - r))"
    by (simp add: fsub_def)
  from assms(2) have "0 \<le> nearest_f64 (p - r)" by (intro nearest_f64_nonneg) simp
  then have "0 \<le> py_round (nearest_f64 (p - r))" by (rule py_round_nonneg)
  moreover from py_round_less[OF assms(4)] have "py_round s < int L" .
  ultimately have "aperture_window L (Fin p) (Fin r)
      = Inr (py_round (nearest_f64 (p - r)), py_round s)"
    by (simp add: aperture_window_Fin[OF d assms(3)])
  with d show ?thesis by simp
qed

lemma lit_7_1: "to_f64 (71 / 10) = Fin (3996944669291315 / 562949953421312)"
  by (subst to_f64_eval[where e = 2]) (simp_all add: py_round_def power_int_minus_divide)

lemma lit_2_4: "to_f64 (12 / 5) = Fin (5404319552844595 / 2251799813685248)"
  by (subst to_f64_eval[where e = 1]) (simp_all add: py_round_def power_int_minus_divide)

lemma sum_7_1_2_4:
  "fadd (Fin (3996944669291315 / 562949953421312)) (Fin (5404319552844595 / 2251799813685248))
     = Fin (19 / 2)"
  by (simp, subst to_f64_eval[where e = 3]) (simp_all add: py_round_def power_int_minus_divide)

lemma diff_7_1_2_4:
  "fsub (Fin (3996944669291315 / 562949953421312)) (Fin (5404319552844595 / 2251799813685248))
     = Fin (1322932390540083 / 281474976710656)"
  by (simp add: fsub_def, subst to_f64_eval[where e = 2])
     (simp_all add: py_round_def power_int_minus_divide)


theorem window_unclamped_witness:
  "fadd (Fin 5) (Fin 2) = Fin 7 \<and> (7::real) < real 10 - 1 / 2
   \<and> aperture_window 10 (Fin 5) (Fin 2) = Inr (3, 7)
   \<and> to_f64 (71 / 10) = Fin (3996944669291315 / 562949953421312)
   \<and> to_f64 (12 / 5) = Fin (5404319552844595 / 2251799813685248)
   \<and> fadd (Fin (3996944669291315 / 562949953421312)) (Fin (5404319552844595 / 2251799813685248))
       = Fin (19 / 2)
   \<and> (19 / 2 :: real) < real 11 - 1 / 2
   \<and> aperture_window 11 (Fin (3996944669291315 / 562949953421312))
        (Fin (5404319552844595 / 2251799813685248)) = Inr (5, 10)"
proof -
  have a: "fadd (Fin 5) (Fin 2) = Fin 7" by simp
  have d: "fsub (Fin 5) (Fin 2) = Fin 3" by (simp add: fsub_def)
  from window_unclamped[of 2 5 7 10, OF _ _ a] d
  have w1: "aperture_window 10 (Fin 5) (Fin 2) = Inr (3, 7)" by simp
  have r: "py_round (19 / 2) = 10" "py_round (1322932390540083 / 281474976710656) = 5"
    by (simp_all add: py_round_def)
  have h: "(0::real) \<le> 5404319552844595 / 2251799813685248"
    "(5404319552844595 / 2251799813685248 :: real) \<le> 3996944669291315 / 562949953421312"
    "(19 / 2 :: real) < real 11 - 1 / 2"
    by simp_all
  from window_unclamped[OF h(1,2) sum_7_1_2_4 h(3)] obtain d where
    dd: "fsub (Fin (3996944669291315 / 562949953421312))
           (Fin (5404319552844595 / 2251799813685248)) = Fin d"
    and ww: "aperture_window 11 (Fin (3996944669291315 / 562949953421312))
        (Fin (5404319552844595 / 2251799813685248)) = Inr (py_round d, py_round (19 / 2))"
    by blast
  from dd diff_7_1_2_4 have "d = 1322932390540083 / 281474976710656"
    by (simp only: f64.inject)
  with ww r
  have w2: "aperture_window 11 (Fin (3996944669291315 / 562949953421312))
        (Fin (5404319552844595 / 2251799813685248)) = Inr (5, 10)" by (simp only:)
  from a w1 w2 lit_7_1 lit_2_4 sum_7_1_2_4 show ?thesis by simp
qed

lemma sum_8_6_1:
  "fadd (Fin (4841369599423283 / 562949953421312)) (Fin 1)
     = Fin (5404319552844595 / 562949953421312)"
  by (simp, subst to_f64_eval[where e = 3]) (simp_all add: py_round_def power_int_minus_divide)

lemma diff_8_6_1:
  "fsub (Fin (4841369599423283 / 562949953421312)) (Fin 1)
     = Fin (4278419646001971 / 562949953421312)"
  by (simp add: fsub_def, subst to_f64_eval[where e = 2])
     (simp_all add: py_round_def power_int_minus_divide)

theorem window_clamped_counterexample:
  "to_f64 (43 / 5) = Fin (4841369599423283 / 562949953421312)
   \<and> (1::real) \<le> 4841369599423283 / 562949953421312
   \<and> (4841369599423283 / 562949953421312 :: real) < real 10 - 1
   \<and> fsub (Fin (4841369599423283 / 562949953421312)) (Fin 1)
       = Fin (4278419646001971 / 562949953421312)
   \<and> fadd (Fin (4841369599423283 / 562949953421312)) (Fin 1)
       = Fin (5404319552844595 / 562949953421312)
   \<and> py_round (5404319552844595 / 562949953421312)
       - py_round (4278419646001971 / 562949953421312) = 2
   \<and> aperture_window 10 (Fin (4841369599423283 / 562949953421312)) (Fin 1) = Inr (8, 9)"
proof -
  have r: "py_round (5404319552844595 / 562949953421312) = 10"
    "py_round (4278419646001971 / 562949953421312) = 8"
    by (simp_all add: py_round_def)
  have w: "aperture_window 10 (Fin (4841369599423283 / 562949953421312)) (Fin 1) = Inr (8, 9)"
    by (simp add: aperture_window_Fin[OF diff_8_6_1 sum_8_6_1] r)
  from lit_8_6 sum_8_6_1 diff_8_6_1 r w show ?thesis by simp
qed

lemma int_round_Inr: "int_round a = Inr i \<Longrightarrow> \<exists>x. a = Fin x \<and> i = py_round x"
  by (cases a) auto

lemma aperture_window_Inr:
  assumes "aperture_window n p ap_rad = Inr w"
  shows "\<exists>lo hi. fsub p ap_rad = Fin lo \<and> fadd p ap_rad = Fin hi
           \<and> w = (if py_round lo < 0 then 0 else py_round lo,
                   if py_round hi \<ge> int n then int n - 1 else py_round hi)"
proof -
  from assms obtain a b where a: "int_round (fsub p ap_rad) = Inr a"
    and b: "int_round (fadd p ap_rad) = Inr b"
    and w: "w = (if a < 0 then 0 else a, if b \<ge> int n then int n - 1 else b)"
    by (auto simp: aperture_window_def Let_def split: sum.splits)
  from int_round_Inr[OF a] int_round_Inr[OF b] w show ?thesis by auto
qed

lemma slice_rows_nonneg:
  assumes "0 \<le> i0" "0 \<le> i1" "i1 \<le> int n"
  shows "slice_rows n i0 i1 = [nat i0..<nat i1]"
proof (cases "nat i0 \<le> n")
  case True
  from assms have "nat i1 \<le> n" by linarith
  with True have "min n (nat i0) = nat i0" "min n (nat i1) = nat i1" by simp_all
  with assms show ?thesis by (simp add: slice_rows_def slice_bound_def)
next
  case False
  from assms have "nat i1 \<le> n" by linarith
  with False assms show ?thesis by (simp add: slice_rows_def slice_bound_def)
qed

lemma aperture_extract_at:
  assumes "shape2_1 frame \<le> length ord_pos" "shape2_1 frame \<le> shape2_1 variance"
    and "\<forall>c<shape2_1 frame. out_of_range (shape2_0 frame) (ord_pos ! c)
            \<or> (\<exists>w. aperture_window (shape2_0 frame) (ord_pos ! c) ap_rad = Inr w)"
    and "col < shape2_1 frame"
  shows "\<exists>spec var. aperture_extract np frame variance ord_pos ap_rad uniform = Inr (spec, var) \<and>
     (if out_of_range (shape2_0 frame) (ord_pos ! col)
      then spec ! col = Fin 0 \<and> var ! col = Fin 0
      else \<exists>lo hi. fsub (ord_pos ! col) ap_rad = Fin lo \<and> fadd (ord_pos ! col) ap_rad = Fin hi \<and>
       (let nrows = int (shape2_0 frame);
          i0 = (if py_round lo < 0 then 0 else py_round lo);
          i1 = (if py_round hi \<ge> nrows then nrows - 1 else py_round hi);
          fs = map (\<lambda>r. at2 frame r col) (slice_rows (shape2_0 frame) i0 i1);
          vs = map (\<lambda>r. at2 variance r col) (slice_rows (shape2_0 variance) i0 i1)
        in spec ! col = (if uniform then fmul (np_mean np fs) (fmul ap_rad (Fin 2))
                         else np_sum np fs) \<and>
           var ! col = (if uniform then fmul (np_mean np vs) (fmul ap_rad (Fin 2))
                        else np_sum np vs)))"
proof -
  from aperture_extract_total[OF assms(1-3)] obtain spec var where
    r: "aperture_extract np frame variance ord_pos ap_rad uniform = Inr (spec, var)" by blast
  from aperture_extract_column[OF r assms(4)] obtain st1 where
    s: "aperture_col np frame variance ord_pos ap_rad uniform col
          (replicate (shape2_1 frame) (Fin 0), replicate (shape2_1 frame) (Fin 0)) = Inr st1"
    and e: "spec ! col = fst st1 ! col" "var ! col = snd st1 ! col" by blast
  show ?thesis
  proof (cases "out_of_range (shape2_0 frame) (ord_pos ! col)")
    case True
    with s assms e r show ?thesis
      by (auto simp: aperture_col_def Let_def split: if_splits)
  next
    case False
    with assms(3,4) obtain w where
      w: "aperture_window (shape2_0 frame) (ord_pos ! col) ap_rad = Inr w" by blast
    from aperture_window_Inr[OF w] obtain lo hi where
      lo: "fsub (ord_pos ! col) ap_rad = Fin lo" and hi: "fadd (ord_pos ! col) ap_rad = Fin hi"
      and w': "w = (if py_round lo < 0 then 0 else py_round lo,
                   if py_round hi \<ge> int (shape2_0 frame) then int (shape2_0 frame) - 1
                   else py_round hi)" by blast
    from s False w w' assms(1,2,4) e
    have "(let nrows = int (shape2_0 frame);
          i0 = (if py_round lo < 0 then 0 else py_round lo);
          i1 = (if py_round hi \<ge> nrows then nrows - 1 else py_round hi);
          fs = map (\<lambda>r. at2 frame r col) (slice_rows (shape2_0 frame) i0 i1);
          vs = map (\<lambda>r. at2 variance r col) (slice_rows (shape2_0 variance) i0 i1)
        in spec ! col = (if uniform then fmul (np_mean np fs) (fmul ap_rad (Fin 2))
                         else np_sum np fs) \<and>
           var ! col = (if uniform then fmul (np_mean np vs) (fmul ap_rad (Fin 2))
                        else np_sum np vs))"
      by (auto simp: aperture_col_def Let_def split: if_splits)
    with r False lo hi show ?thesis by auto
  qed
qed

text \<open>
Claim C1. Take a column \<open>col\<close> whose trace position \<open>p = ord_pos[col]\<close> is a number
  that the test of line 49 keeps (\<open>0 \<le> p < nrows\<close>), in a call where no column's window
  computation raises. Then the call returns; the difference \<open>lo = p - ap_rad\<close> and the sum
  \<open>hi = p + ap_rad\<close>, as doubles, are finite; and with \<open>i0 = round(lo)\<close> raised to 0
  and \<open>i1 = round(hi)\<close> lowered to \<open>nrows - 1\<close> when \<open>i1 \<ge> nrows\<close>, the column
  holds the sums of \<open>frame[i0:i1, col]\<close> and \<open>variance[i0:i1, col]\<close> when
  \<open>uniform\<close> is false, and their means (sum divided by the number of rows of the
  slice) times the nominal width \<open>ap_rad * 2\<close> when it is true. The slice is the rows
  \<open>i0, ..., i1 - 1\<close> whenever \<open>i1\<close> is not negative.
\<close>

theorem aperture_extract_column_value:
  assumes "shape2_1 frame \<le> length ord_pos" "shape2_1 frame \<le> shape2_1 variance"
    and "\<forall>c<shape2_1 frame. out_of_range (shape2_0 frame) (ord_pos ! c)
            \<or> (\<exists>w. aperture_window (shape2_0 frame) (ord_pos ! c) ap_rad = Inr w)"
    and "col < shape2_1 frame"
    and "ord_pos ! col = Fin p" "\<not> out_of_range (shape2_0 frame) (Fin p)"
  shows "\<exists>lo hi spec var.
     fsub (Fin p) ap_rad = Fin lo \<and> fadd (Fin p) ap_rad = Fin hi \<and>
     aperture_extract np frame variance ord_pos ap_rad uniform = Inr (spec, var) \<and>
     (let nrows = int (shape2_0 frame);
          i0 = (if py_round lo < 0 then 0 else py_round lo);
          i1 = (if py_round hi \<ge> nrows then nrows - 1 else py_round hi);
          fs = map (\<lambda>r. at2 frame r col) (slice_rows (shape2_0 frame) i0 i1);
          vs = map (\<lambda>r. at2 variance r col) (slice_rows (shape2_0 variance) i0 i1);
          total = (\<lambda>xs. if xs = [] then Fin 0 else add_reduce np xs);
          mean = (\<lambda>xs. fdiv (total xs) (f64_of_nat (length xs)))
      in spec ! col = (if uniform then fmul (mean fs) (fmul ap_rad (Fin 2)) else total fs) \<and>
         var ! col = (if uniform then fmul (mean vs) (fmul ap_rad (Fin 2)) else total vs) \<and>
         (0 \<le> i1 \<longrightarrow> slice_rows (shape2_0 frame) i0 i1 = [nat i0..<nat i1]))"
proof -
  from aperture_extract_at[OF assms(1-4), of np uniform] assms(5,6)
  obtain spec var lo hi where
    r: "aperture_extract np frame variance ord_pos ap_rad uniform = Inr (spec, var)"
    and lo: "fsub (Fin p) ap_rad = Fin lo" and hi: "fadd (Fin p) ap_rad = Fin hi"
    and v: "(let nrows = int (shape2_0 frame);
          i0 = (if py_round lo < 0 then 0 else py_round lo);
          i1 = (if py_round hi \<ge> nrows then nrows - 1 else py_round hi);
          fs = map (\<lambda>r. at2 frame r col) (slice_rows (shape2_0 frame) i0 i1);
          vs = map (\<lambda>r. at2 variance r col) (slice_rows (shape2_0 variance) i0 i1)
        in spec ! col = (if uniform then fmul (np_mean np fs) (fmul ap_rad (Fin 2))
                         else np_sum np fs) \<and>
           var ! col = (if uniform then fmul (np_mean np vs) (fmul ap_rad (Fin 2))
                        else np_sum np vs))"
    by auto
  let ?i0 = "if py_round lo < 0 then 0 else py_round lo"
  let ?i1 = "if py_round hi \<ge> int (shape2_0 frame) then int (shape2_0 frame) - 1 else py_round hi"
  have s: "0 \<le> ?i1 \<longrightarrow> slice_rows (shape2_0 frame) ?i0 ?i1 = [nat ?i0..<nat ?i1]"
  proof
    assume "0 \<le> ?i1"
    moreover have "0 \<le> ?i0" by simp
    moreover have "?i1 \<le> int (shape2_0 frame)" by simp
    ultimately show "slice_rows (shape2_0 frame) ?i0 ?i1 = [nat ?i0..<nat ?i1]"
      by (intro slice_rows_nonneg)
  qed
  from v s have "(let nrows = int (shape2_0 frame);
          i0 = (if py_round lo < 0 then 0 else py_round lo);
          i1 = (if py_round hi \<ge> nrows then nrows - 1 else py_round hi);
          fs = map (\<lambda>r. at2 frame r col) (slice_rows (shape2_0 frame) i0 i1);
          vs = map (\<lambda>r. at2 variance r col) (slice_rows (shape2_0 variance) i0 i1);
          total = (\<lambda>xs. if xs = [] then Fin 0 else add_reduce np xs);
          mean = (\<lambda>xs. fdiv (total xs) (f64_of_nat (length xs)))
      in spec ! col = (if uniform then fmul (mean fs) (fmul ap_rad (Fin 2)) else total fs) \<and>
         var ! col = (if uniform then fmul (mean vs) (fmul ap_rad (Fin 2)) else total vs) \<and>
         (0 \<le> i1 \<longrightarrow> slice_rows (shape2_0 frame) i0 i1 = [nat i0..<nat i1]))"
    unfolding Let_def np_mean_def np_sum_def by simp
  with r lo hi show ?thesis by blast
qed

lemma squares2_simps [simp]:
  "shape2_0 squares2 = 5" "shape2_1 squares2 = 2" "at2 squares2 r c = Fin (real (r * r))"
  by (simp_all add: squares2_def)

lemma ones2_simps [simp]:
  "shape2_0 (ones2 a b) = a" "shape2_1 (ones2 a b) = b" "at2 (ones2 a b) r k = Fin 1"
  by (simp_all add: ones2_def)

lemma plain_numpy_simps [simp]:
  "add_reduce plain_numpy xs = foldl fadd (Fin 0) xs"
  "float_power plain_numpy x (Fin 2) = fmul x x"
  by (simp_all add: plain_numpy_def)

lemma f64_of_nat_simps [simp]:
  "f64_of_nat 0 = Fin 0" "f64_of_nat (Suc 0) = Fin 1" "f64_of_nat (Suc (Suc 0)) = Fin 2"
  "(numeral k :: int) < 2 ^ 53 \<Longrightarrow> f64_of_nat (numeral k) = Fin (numeral k)"
  using f64_of_nat_exact[of 2] by (simp_all add: f64_of_nat_def)

lemma f64_of_int_simps [simp]:
  "f64_of_int 0 = Fin 0" "f64_of_int 1 = Fin 1"
  "(numeral k :: int) < 2 ^ 53 \<Longrightarrow> f64_of_int (numeral k) = Fin (numeral k)"
  "(numeral k :: int) < 2 ^ 53 \<Longrightarrow> f64_of_int (- numeral k) = Fin (- numeral k)"
  by (simp_all add: f64_of_int_def)

lemma out_of_range_Fin:
  assumes "n < 2 ^ 53"
  shows "out_of_range n (Fin p) \<longleftrightarrow> p < 0 \<or> real n \<le> p"
  by (simp add: out_of_range_def f64_of_nat_exact[OF assms])

lemma half_13: "to_f64 (13 / 2) = Fin (13 / 2)"
  by (subst to_f64_eval[where e = 2]) (simp_all add: py_round_def power_int_minus_divide)

theorem aperture_extract_column_value_witness:
  "\<not> out_of_range (shape2_0 squares2) (Fin 4)
   \<and> out_of_range (shape2_0 squares2) (Fin (- 1))
   \<and> aperture_window (shape2_0 squares2) (Fin 4) (Fin 2) = Inr (2, 4)
   \<and> map (\<lambda>r. at2 squares2 r 0) (slice_rows 5 2 4) = [Fin 4, Fin 9]
   \<and> (\<exists>spec var. aperture_extract plain_numpy squares2 (ones2 5 2) [Fin 4, Fin (- 1)] (Fin 2) False
          = Inr (spec, var) \<and> spec ! 0 = Fin 13 \<and> var ! 0 = Fin 2)
   \<and> (\<exists>spec var. aperture_extract plain_numpy squares2 (ones2 5 2) [Fin 4, Fin (- 1)] (Fin 2) True
          = Inr (spec, var) \<and> spec ! 0 = Fin 26 \<and> var ! 0 = Fin 4)"
proof -
  have o: "\<not> out_of_range (shape2_0 squares2) (Fin 4)"
    "out_of_range (shape2_0 squares2) (Fin (- 1))"
    by (simp_all add: out_of_range_Fin)
  have lo: "fsub (Fin 4) (Fin 2) = Fin 2" and hi: "fadd (Fin 4) (Fin 2) = Fin 6"
    by (simp_all add: fsub_def)
  have w: "aperture_window (shape2_0 squares2) (Fin 4) (Fin 2) = Inr (2, 4)"
    by (simp add: aperture_window_Fin[OF lo hi])
  have s: "slice_rows 5 2 4 = [2, 3]"
    by (simp add: slice_rows_def slice_bound_def upt_rec)
  have h: "shape2_1 squares2 \<le> length [Fin 4, Fin (- 1)]"
    "shape2_1 squares2 \<le> shape2_1 (ones2 5 2)"
    "\<forall>c<shape2_1 squares2. out_of_range (shape2_0 squares2) ([Fin 4, Fin (- 1)] ! c)
        \<or> (\<exists>w. aperture_window (shape2_0 squares2) ([Fin 4, Fin (- 1)] ! c) (Fin 2) = Inr w)"
    "0 < shape2_1 squares2" "[Fin 4, Fin (- 1)] ! 0 = Fin 4"
    using o w by (auto simp: less_2_cases_iff)
  note c1 = aperture_extract_column_value[OF h o(1)]
  from c1[of plain_numpy False] obtain lo' hi' spec var where
    l: "fsub (Fin 4) (Fin 2) = Fin lo'" "fadd (Fin 4) (Fin 2) = Fin hi'"
    and r: "aperture_extract plain_numpy squares2 (ones2 5 2) [Fin 4, Fin (- 1)] (Fin 2) False
          = Inr (spec, var)"
    and v: "(let nrows = int (shape2_0 squares2);
          i0 = (if py_round lo' < 0 then 0 else py_round lo');
          i1 = (if py_round hi' \<ge> nrows then nrows - 1 else py_round hi');
          fs = map (\<lambda>r. at2 squares2 r 0) (slice_rows (shape2_0 squares2) i0 i1);
          vs = map (\<lambda>r. at2 (ones2 5 2) r 0) (slice_rows (shape2_0 (ones2 5 2)) i0 i1);
          total = (\<lambda>xs. if xs = [] then Fin 0 else add_reduce plain_numpy xs);
          mean = (\<lambda>xs. fdiv (total xs) (f64_of_nat (length xs)))
      in spec ! 0 = (if False then fmul (mean fs) (fmul (Fin 2) (Fin 2)) else total fs) \<and>
         var ! 0 = (if False then fmul (mean vs) (fmul (Fin 2) (Fin 2)) else total vs) \<and>
         (0 \<le> i1 \<longrightarrow> slice_rows (shape2_0 squares2) i0 i1 = [nat i0..<nat i1]))"
    by blast
  from l lo hi have e: "lo' = 2" "hi' = 6" by simp_all
  from v have a: "spec ! 0 = Fin 13 \<and> var ! 0 = Fin 2"
    unfolding e by (simp add: Let_def s)
  from c1[of plain_numpy True] obtain lo'' hi'' spec2 var2 where
    l2: "fsub (Fin 4) (Fin 2) = Fin lo''" "fadd (Fin 4) (Fin 2) = Fin hi''"
    and r2: "aperture_extract plain_numpy squares2 (ones2 5 2) [Fin 4, Fin (- 1)] (Fin 2) True
          = Inr (spec2, var2)"
    and v2: "(let nrows = int (shape2_0 squares2);
          i0 = (if py_round lo'' < 0 then 0 else py_round lo'');
          i1 = (if py_round hi'' \<ge> nrows then nrows - 1 else py_round hi'');
          fs = map (\<lambda>r. at2 squares2 r 0) (slice_rows (shape2_0 squares2) i0 i1);
          vs = map (\<lambda>r. at2 (ones2 5 2) r 0) (slice_rows (shape2_0 (ones2 5 2)) i0 i1);
          total = (\<lambda>xs. if xs = [] then Fin 0 else add_reduce plain_numpy xs);
          mean = (\<lambda>xs. fdiv (total xs) (f64_of_nat (length xs)))
      in spec2 ! 0 = (if True then fmul (mean fs) (fmul (Fin 2) (Fin 2)) else total fs) \<and>
         var2 ! 0 = (if True then fmul (mean vs) (fmul (Fin 2) (Fin 2)) else total vs) \<and>
         (0 \<le> i1 \<longrightarrow> slice_rows (shape2_0 squares2) i0 i1 = [nat i0..<nat i1]))"
    by blast
  from l2 lo hi have e2: "lo'' = 2" "hi'' = 6" by simp_all
  from v2 have b: "spec2 ! 0 = Fin 26 \<and> var2 ! 0 = Fin 4"
    unfolding e2 by (simp add: Let_def s half_13)
  have m: "map (\<lambda>r. at2 squares2 r 0) (slice_rows 5 2 4) = [Fin 4, Fin 9]"
    by (simp add: s)
  from o w m r a r2 b show ?thesis by blast
qed

lemma slice_rows_empty:
  assumes "0 \<le> i0" "0 \<le> i1" "i1 \<le> i0"
  shows "slice_rows n i0 i1 = []"
  using assms by (auto simp: slice_rows_def slice_bound_def)

lemma np_mean_empty [simp]: "np_mean np [] = NaN"
  by (simp add: np_mean_def np_sum_def)

lemma np_sum_empty [simp]: "np_sum np [] = Fin 0"
  by (simp add: np_sum_def)

lemma in_range_D:
  assumes "\<not> out_of_range n (Fin p)"
  shows "0 \<le> p" "0 < n"
proof -
  from assms show p: "0 \<le> p" by (simp add: out_of_range_def)
  show "0 < n"
  proof (rule ccontr)
    assume "\<not> 0 < n"
    then have "n = 0" by simp
    with assms p show False by (simp add: out_of_range_def)
  qed
qed

lemma aperture_window_nonneg:
  assumes "\<not> out_of_range n (Fin p)" "0 \<le> r"
    and "aperture_window n (Fin p) (Fin r) = Inr (i0, i1)"
  shows "0 \<le> i0" "0 \<le> i1"
proof -
  from aperture_window_Inr[OF assms(3)] obtain lo hi where
    lo: "fsub (Fin p) (Fin r) = Fin lo" and hi: "fadd (Fin p) (Fin r) = Fin hi"
    and w: "(i0, i1) = (if py_round lo < 0 then 0 else py_round lo,
                        if py_round hi \<ge> int n then int n - 1 else py_round hi)" by blast
  from w show "0 \<le> i0" by (auto split: if_splits)
  from hi have "to_f64 (p + r) = Fin hi" by simp
  from to_f64_eq_Fin_D[OF this] have "hi = nearest_f64 (p + r)" by simp
  moreover from in_range_D(1)[OF assms(1)] assms(2) have "0 \<le> p + r" by simp
  ultimately have "0 \<le> hi" by (simp add: nearest_f64_nonneg)
  then have "0 \<le> py_round hi" by (rule py_round_nonneg)
  with w in_range_D(2)[OF assms(1)] show "0 \<le> i1" by (auto split: if_splits)
qed

text \<open>
Claim C10. A trace position inside \<open>[0, nrows)\<close> whose clamped window is empty or
  inverted (\<open>i1 \<le> i0\<close>) gives \<open>NaN\<close> for the column's spectrum and variance when
  \<open>uniform\<close> is true (the mean of an empty slice), and 0 when it is false (the empty
  sum). The witness shows two such positions: \<open>p = 5\<close> and \<open>p = 9.9\<close> in a frame
  of 10 rows, with radius 0.3.
\<close>

theorem aperture_extract_empty_window_nan:
  assumes "shape2_1 frame \<le> length ord_pos" "shape2_1 frame \<le> shape2_1 variance"
    and "\<forall>c<shape2_1 frame. out_of_range (shape2_0 frame) (ord_pos ! c)
            \<or> (\<exists>w. aperture_window (shape2_0 frame) (ord_pos ! c) (Fin r) = Inr w)"
    and "col < shape2_1 frame"
    and "ord_pos ! col = Fin p" "\<not> out_of_range (shape2_0 frame) (Fin p)" "0 \<le> r"
    and "aperture_window (shape2_0 frame) (Fin p) (Fin r) = Inr (i0, i1)" "i1 \<le> i0"
  shows "(\<exists>spec var. aperture_extract np frame variance ord_pos (Fin r) True = Inr (spec, var)
            \<and> spec ! col = NaN \<and> var ! col = NaN)
       \<and> (\<exists>spec var. aperture_extract np frame variance ord_pos (Fin r) False = Inr (spec, var)
            \<and> spec ! col = Fin 0 \<and> var ! col = Fin 0)"
proof -
  from aperture_window_nonneg[OF assms(6,7,8)] have nn: "0 \<le> i0" "0 \<le> i1" .
  have e: "slice_rows n i0 i1 = []" for n
    by (rule slice_rows_empty[OF nn assms(9)])
  have res: "\<exists>spec var. aperture_extract np frame variance ord_pos (Fin r) u = Inr (spec, var)
      \<and> spec ! col = (if u then NaN else Fin 0) \<and> var ! col = (if u then NaN else Fin 0)" for u
  proof -
    from aperture_extract_at[OF assms(1-4), of np u] assms(5,6) obtain spec var lo hi where
      r: "aperture_extract np frame variance ord_pos (Fin r) u = Inr (spec, var)"
      and lo: "fsub (Fin p) (Fin r) = Fin lo" and hi: "fadd (Fin p) (Fin r) = Fin hi"
      and v: "(let nrows = int (shape2_0 frame);
          i0 = (if py_round lo < 0 then 0 else py_round lo);
          i1 = (if py_round hi \<ge> nrows then nrows - 1 else py_round hi);
          fs = map (\<lambda>r. at2 frame r col) (slice_rows (shape2_0 frame) i0 i1);
          vs = map (\<lambda>r. at2 variance r col) (slice_rows (shape2_0 variance) i0 i1)
        in spec ! col = (if u then fmul (np_mean np fs) (fmul (Fin r) (Fin 2))
                         else np_sum np fs) \<and>
           var ! col = (if u then fmul (np_mean np vs) (fmul (Fin r) (Fin 2))
                        else np_sum np vs))"
      by auto
    from aperture_window_Fin[OF lo hi, of "shape2_0 frame"] assms(8)
    have w: "(if py_round lo < 0 then 0 else py_round lo) = i0"
      "(if py_round hi \<ge> int (shape2_0 frame) then int (shape2_0 frame) - 1 else py_round hi) = i1"
      by simp_all
    from v have "spec ! col = (if u then NaN else Fin 0) \<and> var ! col = (if u then NaN else Fin 0)"
      unfolding Let_def w e by simp
    with r show ?thesis by blast
  qed
  from res[of True] res[of False] show ?thesis by simp
qed

lemma lit_9_9: "to_f64 (99 / 10) = Fin (5573204538870989 / 562949953421312)"
  by (subst to_f64_eval[where e = 3]) (simp_all add: py_round_def power_int_minus_divide)

lemma lit_0_3: "to_f64 (3 / 10) = Fin (5404319552844595 / 18014398509481984)"
  by (subst to_f64_eval[where e = "- 2"]) (simp_all add: py_round_def power_int_minus_divide)

lemma sum_9_9_0_3:
  "fadd (Fin (5573204538870989 / 562949953421312)) (Fin (5404319552844595 / 18014398509481984))
     = Fin (5742089524897383 / 562949953421312)"
  by (simp, subst to_f64_eval[where e = 3])
     (simp_all add: py_round_def power_int_minus_divide)

lemma diff_9_9_0_3:
  "fsub (Fin (5573204538870989 / 562949953421312)) (Fin (5404319552844595 / 18014398509481984))
     = Fin (5404319552844595 / 562949953421312)"
  by (simp add: fsub_def, subst to_f64_eval[where e = 3])
     (simp_all add: py_round_def power_int_minus_divide)

lemma sum_5_0_3:
  "fadd (Fin 5) (Fin (5404319552844595 / 18014398509481984))
     = Fin (5967269506265907 / 1125899906842624)"
  by (simp, subst to_f64_eval[where e = 2])
     (simp_all add: py_round_def power_int_minus_divide)

lemma diff_5_0_3:
  "fsub (Fin 5) (Fin (5404319552844595 / 18014398509481984))
     = Fin (5291729562160333 / 1125899906842624)"
  by (simp add: fsub_def, subst to_f64_eval[where e = 2])
     (simp_all add: py_round_def power_int_minus_divide)

lemma window_5_0_3: "aperture_window 10 (Fin 5) (to_f64 (3 / 10)) = Inr (5, 5)"
proof -
  have "py_round (5291729562160333 / 1125899906842624) = 5"
    "py_round (5967269506265907 / 1125899906842624) = 5"
    by (simp_all add: py_round_def)
  then show ?thesis
    by (simp add: lit_0_3 aperture_window_Fin[OF diff_5_0_3 sum_5_0_3])
qed

lemma window_9_9_0_3: "aperture_window 10 (to_f64 (99 / 10)) (to_f64 (3 / 10)) = Inr (10, 9)"
proof -
  have "py_round (5404319552844595 / 562949953421312) = 10"
    "py_round (5742089524897383 / 562949953421312) = 10"
    by (simp_all add: py_round_def)
  then show ?thesis
    by (simp add: lit_0_3 lit_9_9 aperture_window_Fin[OF diff_9_9_0_3 sum_9_9_0_3])
qed

theorem aperture_extract_empty_window_nan_witness:
  "\<not> out_of_range (shape2_0 (ones2 10 1)) (Fin 5)
   \<and> aperture_window 10 (Fin 5) (to_f64 (3 / 10)) = Inr (5, 5)
   \<and> (\<exists>spec var. aperture_extract plain_numpy (ones2 10 1) (ones2 10 1) [Fin 5] (to_f64 (3 / 10)) True
          = Inr (spec, var) \<and> spec ! 0 = NaN \<and> var ! 0 = NaN)
   \<and> (\<exists>spec var. aperture_extract plain_numpy (ones2 10 1) (ones2 10 1) [Fin 5] (to_f64 (3 / 10)) False
          = Inr (spec, var) \<and> spec ! 0 = Fin 0 \<and> var ! 0 = Fin 0)
   \<and> \<not> out_of_range (shape2_0 (ones2 10 1)) (to_f64 (99 / 10))
   \<and> aperture_window 10 (to_f64 (99 / 10)) (to_f64 (3 / 10)) = Inr (10, 9)
   \<and> (\<exists>spec var. aperture_extract plain_numpy (ones2 10 1) (ones2 10 1) [to_f64 (99 / 10)]
                    (to_f64 (3 / 10)) True
          = Inr (spec, var) \<and> spec ! 0 = NaN \<and> var ! 0 = NaN)
   \<and> (\<exists>spec var. aperture_extract plain_numpy (ones2 10 1) (ones2 10 1) [to_f64 (99 / 10)]
                    (to_f64 (3 / 10)) False
          = Inr (spec, var) \<and> spec ! 0 = Fin 0 \<and> var ! 0 = Fin 0)"
proof -
  let ?r = "5404319552844595 / 18014398509481984 :: real"
  let ?p = "5573204538870989 / 562949953421312 :: real"
  have o1: "\<not> out_of_range (shape2_0 (ones2 10 1)) (Fin 5)"
    and o2: "\<not> out_of_range (shape2_0 (ones2 10 1)) (Fin ?p)"
    by (simp_all add: out_of_range_Fin)
  have r0: "0 \<le> ?r" by simp
  have w1: "aperture_window (shape2_0 (ones2 10 1)) (Fin 5) (Fin ?r) = Inr (5, 5)"
    and w2: "aperture_window (shape2_0 (ones2 10 1)) (Fin ?p) (Fin ?r) = Inr (10, 9)"
    using window_5_0_3 window_9_9_0_3 by (simp_all add: lit_0_3 lit_9_9)
  have h1: "shape2_1 (ones2 10 1) \<le> length [Fin 5 :: f64]"
    "shape2_1 (ones2 10 1) \<le> shape2_1 (ones2 10 1)"
    "\<forall>c<shape2_1 (ones2 10 1). out_of_range (shape2_0 (ones2 10 1)) ([Fin 5] ! c)
        \<or> (\<exists>w. aperture_window (shape2_0 (ones2 10 1)) ([Fin 5] ! c) (Fin ?r) = Inr w)"
    "0 < shape2_1 (ones2 10 1)" "[Fin 5] ! 0 = Fin 5"
    using w1 by auto
  have h2: "shape2_1 (ones2 10 1) \<le> length [Fin ?p]"
    "shape2_1 (ones2 10 1) \<le> shape2_1 (ones2 10 1)"
    "\<forall>c<shape2_1 (ones2 10 1). out_of_range (shape2_0 (ones2 10 1)) ([Fin ?p] ! c)
        \<or> (\<exists>w. aperture_window (shape2_0 (ones2 10 1)) ([Fin ?p] ! c) (Fin ?r) = Inr w)"
    "0 < shape2_1 (ones2 10 1)" "[Fin ?p] ! 0 = Fin ?p"
    using w2 by auto
  note a = aperture_extract_empty_window_nan[OF h1 o1 r0 w1, of plain_numpy]
  note b = aperture_extract_empty_window_nan[OF h2 o2 r0 w2, of plain_numpy]
  from a b o1 o2 window_5_0_3 window_9_9_0_3 show ?thesis
    by (simp add: lit_0_3 lit_9_9)
qed

subsection \<open>flux_coo, column by column\<close>


lemma f64_of_int_nat [simp]: "f64_of_int (int n) = f64_of_nat n"
  by (simp add: f64_of_int_def f64_of_nat_def)


lemma flux_col_skip:
  assumes "i < shape2_0 ord_pos" "c < shape2_1 ord_pos"
    and "out_of_range (shape3_1 frame) (at2 ord_pos i c)"
  shows "flux_col frame variance ord_pos ap_rad i c st
           = Inr (st\<lparr>col_array_pos := set3 (col_array_pos st) i c 0 (col_pos st)\<rparr>)"
  using assms by (simp add: flux_col_def Let_def)

lemma flux_col_inverted:
  assumes "i < shape2_0 ord_pos" "c < shape2_1 ord_pos"
    and "\<not> out_of_range (shape3_1 frame) (at2 ord_pos i c)"
    and "aperture_window (shape3_1 frame) (at2 ord_pos i c) ap_rad = Inr (i0, i1)" "i1 < i0"
  shows "flux_col frame variance ord_pos ap_rad i c st = Inl ValueError"
  using assms by (simp add: flux_col_def Let_def)







lemma ones3_simps [simp]:
  "shape3_0 (ones3 a b c) = a" "shape3_1 (ones3 a b c) = b" "shape3_2 (ones3 a b c) = c"
  "at3 (ones3 a b c) i r k = Fin 1"
  by (simp_all add: ones3_def)

lemma const_trace_simps [simp]:
  "shape2_0 (const_trace a b p) = a" "shape2_1 (const_trace a b p) = b"
  "at2 (const_trace a b p) i k = p"
  by (simp_all add: const_trace_def)

lemma zeros3_simps [simp]:
  "shape3_0 (zeros3 a b c) = a" "shape3_1 (zeros3 a b c) = b" "shape3_2 (zeros3 a b c) = c"
  "at3 (zeros3 a b c) i r k = 0"
  by (simp_all add: zeros3_def)

lemma demo_trace_simps [simp]:
  "shape2_0 demo_trace = 1" "shape2_1 demo_trace = 2" "at2 demo_trace i 0 = Fin 2"
  "at2 demo_trace i (Suc 0) = Fin (- 1)"
  by (simp_all add: demo_trace_def)

lemma demo_cube_simps [simp]:
  "shape3_0 demo_cube = 1" "shape3_1 demo_cube = 5" "shape3_2 demo_cube = 2"
  "at3 demo_cube i r k = Fin 1"
  by (simp_all add: demo_cube_def)






lemma edge_simps [simp]:
  "shape3_0 edge_cube = 1" "shape3_1 edge_cube = 10" "shape3_2 edge_cube = 1"
  "at3 edge_cube i r k = Fin 1"
  "shape2_0 edge_trace = 1" "shape2_1 edge_trace = 1" "at2 edge_trace i k = to_f64 (99 / 10)"
  by (simp_all add: edge_cube_def edge_trace_def)

lemma off_simps [simp]:
  "shape3_0 off_cube = 1" "shape3_1 off_cube = 5" "shape3_2 off_cube = 3"
  "at3 off_cube i r k = Fin 1"
  "shape2_0 off_trace = 1" "shape2_1 off_trace = 3" "at2 off_trace i k = Fin (- 1)"
  by (simp_all add: off_cube_def off_trace_def)

lemma edge_in_range: "\<not> out_of_range 10 (to_f64 (99 / 10))"
  by (simp add: lit_9_9 out_of_range_Fin)

lemma edge_flux_col:
  "flux_col edge_cube edge_cube edge_trace (to_f64 (3 / 10)) 0 0 st = Inl ValueError"
  using flux_col_inverted[of 0 edge_trace 0 edge_cube "to_f64 (3 / 10)" 10 9 edge_cube st]
  by (simp add: edge_in_range window_9_9_0_3)

lemma edge_flux_loops:
  "flux_loops edge_cube edge_cube edge_trace (to_f64 (3 / 10)) = Inl ValueError"
  by (simp add: flux_loops_def edge_flux_col)


text \<open>
Claim C9. With 10 rows, a trace at the double 9.9 and radius 0.3, the position passes
  the range test, the window is \<open>i0 = 10\<close>, \<open>i1 = 9\<close> (clamped from 10), and
  \<open>flux_coo\<close> raises ValueError: the sample array of \<open>npix = -1\<close> rows cannot be
  allocated.
\<close>

theorem flux_coo_inverted_window_raises:
  "shape3_1 edge_cube = 10 \<and> at2 edge_trace 0 0 = to_f64 (99 / 10)
   \<and> \<not> out_of_range 10 (to_f64 (99 / 10))
   \<and> aperture_window 10 (to_f64 (99 / 10)) (to_f64 (3 / 10)) = Inr (10, 9)
   \<and> flux_coo edge_cube edge_cube edge_trace (to_f64 (3 / 10)) = Inl ValueError"
  by (simp add: edge_in_range window_9_9_0_3 flux_coo_def edge_flux_loops)

text \<open>
Claim C6, the case where every trace position is invalid. On a cube of one integration
  and three columns whose positions are all \<open>-1\<close>, the loops end with an empty list of
  blocks and every count 0, and \<open>flux_coo\<close> raises TypeError instead of returning an
  empty sample array: \<open>np.sum\<close> of the empty list is the float \<open>0.0\<close>, which
  \<open>np.zeros\<close> refuses as a dimension.
\<close>

theorem flux_coo_all_invalid_raises:
  "out_of_range (shape3_1 off_cube) (at2 off_trace 0 0)
   \<and> out_of_range (shape3_1 off_cube) (at2 off_trace 0 1)
   \<and> out_of_range (shape3_1 off_cube) (at2 off_trace 0 2)
   \<and> flux_loops off_cube off_cube off_trace (Fin 1)
       = Inr \<lparr>col_array_pos = set3 (set3 (set3 (zeros3 1 3 2) 0 0 0 0) 0 1 0 0) 0 2 0 0,
              pix_list = [], col_pos = 0\<rparr>
   \<and> flux_coo off_cube off_cube off_trace (Fin 1) = Inl TypeError"
proof -
  have o: "out_of_range (shape3_1 off_cube) (at2 off_trace 0 c)" for c
    by (simp add: out_of_range_Fin)
  have s: "flux_col off_cube off_cube off_trace (Fin 1) 0 c st
      = Inr (st\<lparr>col_array_pos := set3 (col_array_pos st) 0 c 0 (col_pos st)\<rparr>)"
    if "c < 3" for c st
    using that o by (intro flux_col_skip) simp_all
  have c: "[0..<3] = [0, 1, 2]" by (simp add: upt_rec)
  have l: "flux_loops off_cube off_cube off_trace (Fin 1)
          = Inr \<lparr>col_array_pos = set3 (set3 (set3 (zeros3 1 3 2) 0 0 0 0) 0 1 0 0) 0 2 0 0,
                 pix_list = [], col_pos = 0\<rparr>"
    by (simp add: flux_loops_def c s)
  from o l show ?thesis by (simp add: flux_coo_def materialize_empty)
qed



end
